theory Spec2Isabelle
  imports Main "HOL-Library.Word" "HOL-Library.Sublist"
begin

section \<open>Errors\<close>

text \<open>
  A Go \<open>error\<close> value.  \<open>Errorf\<close> is an error built by \<open>errors.Errorf\<close> in this
  package, with its formatted message; \<open>CtxErr\<close> is what \<open>ctx.Err()\<close> returns;
  \<open>External\<close> is an error handed back by a collaborator (the importer client, the SQL
  driver, the operating system, the semver library); \<open>Panic\<close> is a run-time panic
  (an index out of range).  \<open>errors.Trace\<close> only annotates the stack and is the
  identity here.
\<close>

datatype error = Errorf string | CtxErr | External string | Panic string

section \<open>Delivery streams: \<open>splitIntoDeliveryStreams\<close>\<close>

text \<open>
  A \<open>kvenc.KvPair\<close> is a key and a value, both byte slices.  Go's \<open>int\<close> is modelled
  as \<open>int\<close>: the only arithmetic is the sum of the lengths of slices that are held in
  memory at the same time, which stays far below \<open>2^63\<close>.
\<close>

record KvPair =
  Key :: "8 word list"
  Val :: "8 word list"

definition pairSize :: "KvPair \<Rightarrow> int" where
  "pairSize pair = int (length (Key pair)) + int (length (Val pair))"

text \<open>The Go slice expression \<open>s[i:j]\<close> for \<open>i \<le> j \<le> len(s)\<close>.\<close>

definition slice :: "'a list \<Rightarrow> nat \<Rightarrow> nat \<Rightarrow> 'a list" where
  "slice s i j = take (j - i) (drop i s)"

text \<open>
  The \<open>for j, pair := range totalKVs\<close> loop.  \<open>rest\<close> is what the range still has to
  visit, \<open>j\<close> the index of its head; \<open>res\<close>, \<open>i\<close> and \<open>cumSize\<close> are the loop's variables.
  The result is that of \<open>append(res, totalKVs[i:])\<close> after the loop.
\<close>

fun splitLoop :: "KvPair list \<Rightarrow> int \<Rightarrow> nat \<Rightarrow> KvPair list \<Rightarrow>
    KvPair list list \<Rightarrow> nat \<Rightarrow> int \<Rightarrow> KvPair list list" where
  "splitLoop totalKVs splitSize j [] res i cumSize = res @ [drop i totalKVs]"
| "splitLoop totalKVs splitSize j (pair # rest) res i cumSize =
     (let size = pairSize pair in
      if i < j \<and> cumSize + size > splitSize
      then splitLoop totalKVs splitSize (Suc j) rest (res @ [slice totalKVs i j]) j (0 + size)
      else splitLoop totalKVs splitSize (Suc j) rest res i (cumSize + size))"

definition splitIntoDeliveryStreams :: "KvPair list \<Rightarrow> int \<Rightarrow> KvPair list list" where
  "splitIntoDeliveryStreams totalKVs splitSize = splitLoop totalKVs splitSize 0 totalKVs [] 0 0"

text \<open>The cumulative byte size of a sub-batch: the sum of \<open>len(key) + len(value)\<close>.\<close>

definition batchSize :: "KvPair list \<Rightarrow> int" where
  "batchSize batch = sum_list (map pairSize batch)"

definition okBatch :: "int \<Rightarrow> KvPair list \<Rightarrow> bool" where
  "okBatch S b = (batchSize b \<le> S \<or> (\<exists>p. b = [p] \<and> S < pairSize p))"

section \<open>Version gate: \<open>extractTiDBVersion\<close> and \<open>checkVersion\<close>\<close>

text \<open>
  \<open>strings.Split(s, sep)\<close> for a separator of one byte: one segment more than there are
  separators in \<open>s\<close>, the empty string giving the one segment \<open>""\<close>.
\<close>

fun Split :: "string \<Rightarrow> char \<Rightarrow> string list" where
  "Split [] sep = [[]]"
| "Split (c # s) sep =
     (if c = sep then [] # Split s sep
      else (case Split s sep of [] \<Rightarrow> [[c]] | w # ws \<Rightarrow> (c # w) # ws))"

text \<open>\<open>strings.Join(elems, sep)\<close>.\<close>

fun Join :: "string list \<Rightarrow> string \<Rightarrow> string" where
  "Join [] sep = []"
| "Join [a] sep = a"
| "Join (a # b # elems) sep = a @ sep @ Join (b # elems) sep"

text \<open>\<open>strings.TrimPrefix(s, prefix)\<close>.\<close>

definition TrimPrefix :: "string \<Rightarrow> string \<Rightarrow> string" where
  "TrimPrefix s p = (if prefix p s then drop (length p) s else s)"

text \<open>
  \<open>semver.NewVersion\<close> belongs to the semver library; it is the parameter \<open>NewVersion\<close>,
  which returns the parsed version or the library's error.
\<close>

definition extractTiDBVersion :: "(string \<Rightarrow> error + 'v) \<Rightarrow> string \<Rightarrow> error + 'v" where
  "extractTiDBVersion NewVersion version =
     (let versions = Split version (CHR ''-'');
          end0 = length versions
      in if end0 = 3 \<or> end0 = 4
         then NewVersion (TrimPrefix (Join (slice versions 2 end0) ''-'') ''v'')
         else if end0 = 5 \<or> end0 = 6
         then NewVersion (TrimPrefix (Join (slice versions 2 (end0 - 2)) ''-'') ''v'')
         else Inl (Errorf (''not a valid TiDB version: '' @ version)))"

text \<open>The number of separators in a string.\<close>

definition countSep :: "string \<Rightarrow> char \<Rightarrow> nat" where
  "countSep s sep = length (filter (\<lambda>c. c = sep) s)"

text \<open>
  \<open>checkVersion\<close>.  \<open>Version.Compare\<close> (negative, zero or positive) and
  \<open>Version.String\<close>, which \<open>%s\<close> calls, belong to the semver library and are the
  parameters \<open>Compare\<close> and \<open>String\<close>.  The result is the returned error, \<open>None\<close> for
  \<open>nil\<close>.
\<close>

definition checkVersion :: "('v \<Rightarrow> 'v \<Rightarrow> int) \<Rightarrow> ('v \<Rightarrow> string) \<Rightarrow>
    string \<Rightarrow> 'v \<Rightarrow> 'v \<Rightarrow> error option" where
  "checkVersion Compare String component expected actual =
     (if Compare actual expected \<ge> 0 then None
      else Some (Errorf (component @ '' version too old, expected '>='' @ String expected
                         @ [CHR 0x27] @ '', found '' @ [CHR 0x27] @ String actual
                         @ [CHR 0x27])))"

text \<open>
  A plain \<open>major.minor.patch\<close> version, its order and its printed form, to run
  \<open>checkVersion\<close> on the versions the program requires (\<open>2.1.0\<close>).
\<close>

function fmt_d :: "nat \<Rightarrow> string" where
  "fmt_d n = (if n < 10 then [''0123456789'' ! n]
              else fmt_d (n div 10) @ [''0123456789'' ! (n mod 10)])"
  by pat_completeness auto
termination
  by (relation "measure id") auto

declare fmt_d.simps [simp del]

definition plainCompare :: "nat \<times> nat \<times> nat \<Rightarrow> nat \<times> nat \<times> nat \<Rightarrow> int" where
  "plainCompare a b =
     (case a of (ma, mi, pa) \<Rightarrow> (case b of (mb, nb, pb) \<Rightarrow>
        if ma \<noteq> mb then (if ma < mb then - 1 else 1)
        else if mi \<noteq> nb then (if mi < nb then - 1 else 1)
        else if pa \<noteq> pb then (if pa < pb then - 1 else 1)
        else 0))"

definition plainString :: "nat \<times> nat \<times> nat \<Rightarrow> string" where
  "plainString v = (case v of (ma, mi, pa) \<Rightarrow> fmt_d ma @ ''.'' @ fmt_d mi @ ''.'' @ fmt_d pa)"

section \<open>Column discovery: \<open>initializeColumns\<close>\<close>

text \<open>\<open>model.ExtraHandleName\<close>, the name of the hidden row-ID column.\<close>

definition ExtraHandleName :: string where
  "ExtraHandleName = ''_tidb_rowid''"

text \<open>
  \<open>tidbRowIDColumnRegex\<close> is the pattern
  \<^verbatim>\<open>`_tidb_rowid`|(?i:\b_tidb_rowid\b)\<close>, searched anywhere in the input.
  The first alternative is the name in backticks, byte for byte.  The second is the name
  in any mix of upper and lower case between two word boundaries: the name begins and
  ends with a word character, so the byte before it and the byte after it must not be
  word characters (\<open>[0-9A-Za-z_]\<close>), or must not exist.  None of the name's letters
  has a case fold outside ASCII.
\<close>

definition isWordChar :: "char \<Rightarrow> bool" where
  "isWordChar c = (let n = (of_char c :: nat) in
     (48 \<le> n \<and> n \<le> 57) \<or> (65 \<le> n \<and> n \<le> 90) \<or> (97 \<le> n \<and> n \<le> 122) \<or> n = 95)"

definition foldEq :: "char \<Rightarrow> char \<Rightarrow> bool" where
  "foldEq p c = (c = p \<or> (let n = (of_char p :: nat) in
     97 \<le> n \<and> n \<le> 122 \<and> (of_char c :: nat) + 32 = n))"

definition notWord :: "char option \<Rightarrow> bool" where
  "notWord c = (case c of None \<Rightarrow> True | Some x \<Rightarrow> \<not> isWordChar x)"

definition quotedAt :: "string \<Rightarrow> bool" where
  "quotedAt s = prefix (''`'' @ ExtraHandleName @ ''`'') s"

definition bareAt :: "char option \<Rightarrow> string \<Rightarrow> bool" where
  "bareAt prev s =
     (let n = length ExtraHandleName in
      notWord prev \<and> n \<le> length s \<and> list_all2 foldEq ExtraHandleName (take n s)
      \<and> notWord (case drop n s of [] \<Rightarrow> None | c # _ \<Rightarrow> Some c))"

fun matchFrom :: "char option \<Rightarrow> string \<Rightarrow> bool" where
  "matchFrom prev [] = False"
| "matchFrom prev (c # s) = (quotedAt (c # s) \<or> bareAt prev (c # s) \<or> matchFrom (Some c) s)"

text \<open>\<open>tidbRowIDColumnRegex.Match(columns)\<close>; a nil slice is searched as the empty one.\<close>

definition tidbRowIDColumnRegex_Match :: "string option \<Rightarrow> bool" where
  "tidbRowIDColumnRegex_Match columns = matchFrom None (case columns of None \<Rightarrow> [] | Some b \<Rightarrow> b)"

text \<open>
  \<open>initializeColumns\<close>.  A \<open>[]byte\<close> is \<open>None\<close> when nil and \<open>Some\<close> of its bytes
  otherwise.  \<open>PKIsHandle\<close> and \<open>coreColumns\<close> (the names of
  \<open>t.tableInfo.core.Columns\<close>) are what the function reads of the table; the result is
  the pair it stores into \<open>ccp.Columns\<close> and \<open>ccp.ShouldIncludeRowID\<close>.
\<close>

definition initializeColumns :: "bool \<Rightarrow> string list \<Rightarrow> string option \<Rightarrow> string option \<times> bool" where
  "initializeColumns PKIsHandle coreColumns columns =
     (let shouldIncludeRowID = (\<not> PKIsHandle \<and> \<not> tidbRowIDColumnRegex_Match columns);
          cols = (case columns of None \<Rightarrow> [] | Some b \<Rightarrow> b);
          columns' =
            (if shouldIncludeRowID then
               (if length cols \<noteq> 0
                then Some (take (length cols - 1) cols @ '',`'' @ ExtraHandleName @ ''`)'')
                else Some (foldl (\<lambda>buf name. buf @ name @ ''`,`'') ''(`'' coreColumns
                           @ ExtraHandleName @ ''`)''))
             else if columns = None then Some [] else columns)
      in (columns', shouldIncludeRowID))"

text \<open>A parenthesised list of backtick-quoted names, separated by commas.\<close>

definition quotedList :: "string list \<Rightarrow> string" where
  "quotedList names = ''('' @ Join (map (\<lambda>n. ''`'' @ n @ ''`'') names) '','' @ '')''"


section \<open>Checkpoints\<close>

text \<open>
  \<open>CheckpointStatus\<close> is an unsigned integer that the program only compares.  The
  constants it is compared with are declared outside this file; they are the fields of
  \<open>CheckpointStatuses\<close>, a parameter of the functions that use them.
\<close>

type_synonym CheckpointStatus = nat

record CheckpointStatuses =
  CheckpointStatusLoaded :: CheckpointStatus
  CheckpointStatusAllWritten :: CheckpointStatus
  CheckpointStatusClosed :: CheckpointStatus
  CheckpointStatusImported :: CheckpointStatus

text \<open>
  Modelled from the spec: \<open>verify.KVChecksum\<close>, which is declared outside this file.  It
  holds \<open>(crc, kvs, bytes)\<close> as unsigned 64-bit integers; the empty one is \<open>(0,0,0)\<close>;
  \<open>Add\<close> folds another accumulator in (xor of the checksums, sums of the counts and of
  the bytes); \<open>Update\<close> folds a sequence of KV pairs in, with \<open>crc64\<close> of key and value
  a parameter; \<open>Sum\<close>, \<open>SumKVS\<close> and \<open>SumSize\<close> read the three components.
\<close>

record KVChecksum =
  bytes :: "64 word"
  kvs :: "64 word"
  checksum :: "64 word"

definition MakeKVChecksum :: "64 word \<Rightarrow> 64 word \<Rightarrow> 64 word \<Rightarrow> KVChecksum" where
  "MakeKVChecksum b k c = \<lparr>bytes = b, kvs = k, checksum = c\<rparr>"

definition Add :: "KVChecksum \<Rightarrow> KVChecksum \<Rightarrow> KVChecksum" where
  "Add c other = \<lparr>bytes = bytes c + bytes other, kvs = kvs c + kvs other,
                  checksum = xor (checksum c) (checksum other)\<rparr>"

definition Update :: "(8 word list \<Rightarrow> 64 word) \<Rightarrow> KVChecksum \<Rightarrow> KvPair list \<Rightarrow> KVChecksum" where
  "Update crc64 c pairs =
     foldl (\<lambda>c pair. \<lparr>bytes = bytes c + of_nat (length (Key pair) + length (Val pair)),
                      kvs = kvs c + 1,
                      checksum = xor (checksum c) (crc64 (Key pair @ Val pair))\<rparr>) c pairs"

definition Sum :: "KVChecksum \<Rightarrow> 64 word" where
  "Sum c = checksum c"

definition SumKVS :: "KVChecksum \<Rightarrow> 64 word" where
  "SumKVS c = kvs c"

definition SumSize :: "KVChecksum \<Rightarrow> 64 word" where
  "SumSize c = bytes c"

text \<open>
  The checkpoint structures, with the fields this file reads and writes.  Offsets and
  row IDs are \<open>int64\<close>; they are only compared and copied, so they are \<open>int\<close>.
  Field names are those of the source where they are unique: \<open>KeyOffset\<close> is
  \<open>ChunkCheckpointKey.Offset\<close>, \<open>ChunkKey\<close> and \<open>ChunkChecksum\<close> are
  \<open>ChunkCheckpoint.Key\<close> and \<open>ChunkCheckpoint.Checksum\<close>, \<open>EngineStatus\<close> is
  \<open>EngineCheckpoint.Status\<close>.
\<close>

record ChunkCheckpointKey =
  Path :: string
  KeyOffset :: int

record mydump_Chunk =
  Offset :: int
  EndOffset :: int
  PrevRowIDMax :: int
  RowIDMax :: int

record ChunkCheckpoint =
  ChunkKey :: ChunkCheckpointKey
  Columns :: "string option"
  Chunk :: mydump_Chunk
  ChunkChecksum :: KVChecksum
  ShouldIncludeRowID :: bool

record EngineCheckpoint =
  EngineStatus :: CheckpointStatus
  Chunks :: "ChunkCheckpoint list"

record TableCheckpoint =
  Status :: CheckpointStatus
  AllocBase :: int
  Engines :: "EngineCheckpoint list"

text \<open>
  The three checkpoint mergers: \<open>StatusCheckpointMerger\<close> with its \<open>EngineID\<close> and
  \<open>Status\<close>, \<open>RebaseCheckpointMerger\<close> with its \<open>AllocBase\<close>, \<open>ChunkCheckpointMerger\<close>
  with \<open>EngineID\<close>, \<open>Key\<close>, \<open>Checksum\<close>, \<open>Pos\<close> and \<open>RowID\<close>.
\<close>

datatype TableCheckpointMerger =
    StatusCheckpointMerger int CheckpointStatus
  | RebaseCheckpointMerger int
  | ChunkCheckpointMerger int ChunkCheckpointKey KVChecksum int int

record saveCp =
  tableName :: string
  merger :: TableCheckpointMerger

record errorSummary =
  status :: CheckpointStatus
  err :: error

section \<open>The controller and its collaborators\<close>

text \<open>
  The opened and closed engine handles of the importer client are opaque to this file.
  A chunk parser is what \<open>newChunkRestore\<close> sets of it.  Modelled from the spec:
  \<open>mydump.ChunkParser\<close>, declared outside this file: a fresh parser stands at position
  0 with last row ID 0, and \<open>SetPos(pos, rowID)\<close> moves it to \<open>pos\<close> with row-ID position
  \<open>rowID\<close>.  \<open>readerPos\<close> is the position of the file the parser reads, which
  \<open>SetPos\<close> does not move.
\<close>

type_synonym OpenedEngine = nat

type_synonym ClosedEngine = nat

record ChunkParser =
  readerPos :: int
  pos :: int
  lastRowID :: int

definition NewChunkParser :: "int \<Rightarrow> ChunkParser" where
  "NewChunkParser reader = \<lparr>readerPos = reader, pos = 0, lastRowID = 0\<rparr>"

definition SetPos :: "int \<Rightarrow> int \<Rightarrow> ChunkParser \<Rightarrow> ChunkParser" where
  "SetPos p rowID parser0 = parser0\<lparr>pos := p, lastRowID := rowID\<rparr>"

record chunkRestore =
  parser :: ChunkParser
  index :: nat
  chunk :: ChunkCheckpoint

text \<open>A table region of \<open>mydump.MakeTableRegions\<close>: \<open>RegionChunk\<close> is its field \<open>Chunk\<close>.\<close>

record TableRegion =
  EngineID :: int
  File :: string
  RegionChunk :: mydump_Chunk

text \<open>
  The calls the controller makes to its collaborators, in the order it makes them:
  the metrics, the importer client, the operating system, the row-ID allocator, the
  checkpoint store, and the tasks it starts (\<open>GoChunkRestore\<close> is the \<open>go\<close> statement that
  runs \<open>cr.restore\<close> for an engine, \<open>GoCompact\<close> the one that runs \<open>doCompact\<close>).
\<close>

datatype call =
    RecordTableCount CheckpointStatus "error option"
  | UnsafeCloseEngine string int
  | OpenEngine string int
  | OsOpen string
  | FileSeek string int
  | GoChunkRestore chunkRestore int OpenedEngine
  | EngineClose OpenedEngine
  | Import ClosedEngine
  | Cleanup ClosedEngine
  | GoCompact int
  | MakeTableRegions
  | InsertEngineCheckpoints string "EngineCheckpoint list"
  | AllocRebase int int bool

text \<open>
  The state of a \<open>RestoreController\<close> that the functions below change: the values sent
  on \<open>saveCpCh\<close>, oldest first; the map \<open>errorSummaries.summary\<close>; \<open>compactState\<close>; and
  the calls made so far, oldest first.
\<close>

record RestoreController =
  saveCpCh :: "saveCp list"
  summary :: "string \<rightharpoonup> errorSummary"
  compactState :: int
  calls :: "call list"

text \<open>
  What the collaborators and the scheduler answer.  \<open>IsContextCanceledError\<close> and
  \<open>SetInvalid\<close> are declared outside this file.  \<open>ctxDoneAt i\<close> says whether the context
  is done when the chunk loop reaches chunk \<open>i\<close>, \<open>chunkErrAt i\<close> whether a chunk task
  has latched an error by then, \<open>chunkErrFinal\<close> what the latch holds once all tasks
  have finished: every schedule of the chunk tasks is one choice of these.
  \<open>osOpenRes\<close> is the error of \<open>os.Open\<close> on a path, \<open>seekRes\<close> the error of seeking the
  file of a path to an offset.
\<close>

record env =
  statuses :: CheckpointStatuses
  IsContextCanceledError :: "error \<Rightarrow> bool"
  SetInvalid :: "TableCheckpointMerger \<Rightarrow> TableCheckpointMerger"
  unsafeCloseEngineRes :: "string \<Rightarrow> int \<Rightarrow> error + ClosedEngine"
  openEngineRes :: "string \<Rightarrow> int \<Rightarrow> error + OpenedEngine"
  ctxDoneAt :: "nat \<Rightarrow> bool"
  chunkErrAt :: "nat \<Rightarrow> bool"
  osOpenRes :: "string \<Rightarrow> error option"
  seekRes :: "string \<Rightarrow> int \<Rightarrow> error option"
  chunkErrFinal :: "error option"
  engineCloseRes :: "OpenedEngine \<Rightarrow> error + ClosedEngine"
  importRes :: "ClosedEngine \<Rightarrow> error option"
  makeTableRegionsRes :: "error + TableRegion list"
  insertEngineCheckpointsRes :: "error option"

definition called :: "call \<Rightarrow> RestoreController \<Rightarrow> RestoreController" where
  "called c rc = rc\<lparr>calls := calls rc @ [c]\<rparr>"

definition send :: "saveCp \<Rightarrow> RestoreController \<Rightarrow> RestoreController" where
  "send scp rc = rc\<lparr>saveCpCh := saveCpCh rc @ [scp]\<rparr>"

section \<open>\<open>saveStatusCheckpoint\<close>\<close>

text \<open>\<open>errorSummaries.record\<close>.\<close>

definition record_summary :: "string \<Rightarrow> error \<Rightarrow> CheckpointStatus \<Rightarrow>
    RestoreController \<Rightarrow> RestoreController" where
  "record_summary tn e st rc = rc\<lparr>summary := (summary rc)(tn \<mapsto> \<lparr>status = st, err = e\<rparr>)\<rparr>"

text \<open>
  \<open>saveStatusCheckpoint\<close>: the \<open>switch\<close> on the error, then the metric and the send on
  the save channel, which the cancellation case returns before.
\<close>

definition saveStatusCheckpoint :: "env \<Rightarrow> string \<Rightarrow> int \<Rightarrow> error option \<Rightarrow>
    CheckpointStatus \<Rightarrow> RestoreController \<Rightarrow> RestoreController" where
  "saveStatusCheckpoint env tn engineID e statusIfSucceed rc =
     (let merger0 = StatusCheckpointMerger engineID statusIfSucceed in
      case e of
        None \<Rightarrow>
          send \<lparr>tableName = tn, merger = merger0\<rparr>
            (called (RecordTableCount statusIfSucceed e) rc)
      | Some er \<Rightarrow>
          if \<not> IsContextCanceledError env er
          then send \<lparr>tableName = tn, merger = SetInvalid env merger0\<rparr>
                 (called (RecordTableCount statusIfSucceed e)
                    (record_summary tn er statusIfSucceed rc))
          else rc)"

section \<open>\<open>restoreTable\<close>, step 1: loading the table info\<close>

record TableRestore =
  t_tableName :: string
  t_tableID :: int
  t_AutoIncID :: int

text \<open>
  \<open>populateChunks\<close>.  The inner loop appends engines in status \<open>Loaded\<close> until
  \<open>chunk.EngineID\<close> is an index of \<open>cp.Engines\<close>; the chunk is then appended to that
  engine.  A negative \<open>EngineID\<close> passes the inner loop and panics at the index.
\<close>

function growEngines :: "int \<Rightarrow> CheckpointStatus \<Rightarrow> EngineCheckpoint list \<Rightarrow> EngineCheckpoint list" where
  "growEngines eid loaded engines =
     (if eid \<ge> int (length engines)
      then growEngines eid loaded (engines @ [\<lparr>EngineStatus = loaded, Chunks = []\<rparr>])
      else engines)"
  by pat_completeness auto
termination
  by (relation "measure (\<lambda>(eid, loaded, engines). nat (eid + 1 - int (length engines)))") auto

declare growEngines.simps [simp del]

fun populateLoop :: "CheckpointStatus \<Rightarrow> TableRegion list \<Rightarrow> EngineCheckpoint list \<Rightarrow>
    error + EngineCheckpoint list" where
  "populateLoop loaded [] engines = Inr engines"
| "populateLoop loaded (region # regions) engines =
     (let engines1 = growEngines (EngineID region) loaded engines in
      if EngineID region < 0 then Inl (Panic ''index out of range'')
      else
        let i = nat (EngineID region);
            engine = engines1 ! i;
            ccp = \<lparr>ChunkKey = \<lparr>Path = File region, KeyOffset = Offset (RegionChunk region)\<rparr>,
                   Columns = None,
                   Chunk = RegionChunk region,
                   ChunkChecksum = MakeKVChecksum 0 0 0,
                   ShouldIncludeRowID = False\<rparr>
        in populateLoop loaded regions (engines1[i := engine\<lparr>Chunks := Chunks engine @ [ccp]\<rparr>]))"

definition populateChunks :: "env \<Rightarrow> TableCheckpoint \<Rightarrow> RestoreController \<Rightarrow>
    (error + TableCheckpoint) \<times> RestoreController" where
  "populateChunks env cp rc =
     (let rc1 = called MakeTableRegions rc in
      case makeTableRegionsRes env of
        Inl e \<Rightarrow> (Inl e, rc1)
      | Inr regions \<Rightarrow>
          (case populateLoop (CheckpointStatusLoaded (statuses env)) regions (Engines cp) of
             Inl e \<Rightarrow> (Inl e, rc1)
           | Inr engines \<Rightarrow> (Inr (cp\<lparr>Engines := engines\<rparr>), rc1)))"

text \<open>The two nested loops that raise \<open>cp.AllocBase\<close> to every chunk's \<open>RowIDMax\<close>.\<close>

definition rebaseOverChunks :: "int \<Rightarrow> EngineCheckpoint list \<Rightarrow> int" where
  "rebaseOverChunks base engines =
     foldl (\<lambda>b engine. foldl (\<lambda>b c. max b (RowIDMax (Chunk c))) b (Chunks engine)) base engines"

text \<open>
  Step 1 of \<open>restoreTable\<close>: the result is the error it returns with, or the checkpoint
  with which step 2 starts.
\<close>

definition restoreTable_step1 :: "env \<Rightarrow> TableRestore \<Rightarrow> TableCheckpoint \<Rightarrow>
    RestoreController \<Rightarrow> (error + TableCheckpoint) \<times> RestoreController" where
  "restoreTable_step1 env t cp rc =
     (if length (Engines cp) > 0 then (Inr cp, rc)
      else if Status cp < CheckpointStatusAllWritten (statuses env) then
        (case populateChunks env cp rc of
           (Inl e, rc1) \<Rightarrow> (Inl e, rc1)
         | (Inr cp1, rc1) \<Rightarrow>
             (let rc2 = called (InsertEngineCheckpoints (t_tableName t) (Engines cp1)) rc1 in
              case insertEngineCheckpointsRes env of
                Some e \<Rightarrow> (Inl e, rc2)
              | None \<Rightarrow>
                  (let cp2 = cp1\<lparr>AllocBase := max (AllocBase cp1) (t_AutoIncID t)\<rparr>;
                       cp3 = cp2\<lparr>AllocBase := rebaseOverChunks (AllocBase cp2) (Engines cp2)\<rparr>;
                       rc3 = called (AllocRebase (t_tableID t) (AllocBase cp3) False) rc2;
                       rc4 = send \<lparr>tableName = t_tableName t,
                                   merger = RebaseCheckpointMerger (AllocBase cp3)\<rparr> rc3
                   in (Inr cp3, rc4))))
      else (Inr cp, rc))"

section \<open>Resuming an engine: \<open>newChunkRestore\<close>, \<open>restoreEngine\<close>, \<open>importEngine\<close>\<close>

text \<open>
  \<open>newChunkRestore\<close>: the file is opened, and an error of \<open>os.Open\<close> is returned.
  \<open>reader.Seek\<close> then moves the reader to the chunk's offset; its results are dropped, so
  a seek that fails leaves the reader where \<open>os.Open\<close> put it, at the start of the file,
  and the function goes on.  The parser is set to the chunk's offset and to the chunk's
  \<open>PrevRowIDMax\<close> in both cases.
\<close>

definition newChunkRestore :: "env \<Rightarrow> nat \<Rightarrow> ChunkCheckpoint \<Rightarrow> RestoreController \<Rightarrow>
    (error + chunkRestore) \<times> RestoreController" where
  "newChunkRestore env i ccp rc =
     (let rc1 = called (OsOpen (Path (ChunkKey ccp))) rc in
      case osOpenRes env (Path (ChunkKey ccp)) of
        Some e \<Rightarrow> (Inl e, rc1)
      | None \<Rightarrow>
          (let parser0 = NewChunkParser 0;
               rc2 = called (FileSeek (Path (ChunkKey ccp)) (Offset (Chunk ccp))) rc1;
               parser1 = (case seekRes env (Path (ChunkKey ccp)) (Offset (Chunk ccp)) of
                            None \<Rightarrow> parser0\<lparr>readerPos := Offset (Chunk ccp)\<rparr>
                          | Some e \<Rightarrow> parser0);
               parser2 = SetPos (Offset (Chunk ccp)) (PrevRowIDMax (Chunk ccp)) parser1
           in (Inr \<lparr>parser = parser2, index = i, chunk = ccp\<rparr>, rc2)))"

text \<open>
  The chunk loop of \<open>restoreEngine\<close>.  The result is \<open>Some\<close> of the error the function
  returns with from inside the loop, or \<open>None\<close> when the loop ends or breaks.  A chunk
  task changes the checkpoint of its own chunk only, which the loop has read before it
  starts the task.
\<close>

fun chunkLoop :: "env \<Rightarrow> int \<Rightarrow> OpenedEngine \<Rightarrow> nat \<Rightarrow> ChunkCheckpoint list \<Rightarrow>
    RestoreController \<Rightarrow> error option \<times> RestoreController" where
  "chunkLoop env engineID engine i [] rc = (None, rc)"
| "chunkLoop env engineID engine i (ccp # rest) rc =
     (if Offset (Chunk ccp) \<ge> EndOffset (Chunk ccp)
      then chunkLoop env engineID engine (Suc i) rest rc
      else if ctxDoneAt env i then (Some CtxErr, rc)
      else if chunkErrAt env i then (None, rc)
      else
        (case newChunkRestore env i ccp rc of
           (Inl e, rc1) \<Rightarrow> (Some e, rc1)
         | (Inr cr, rc1) \<Rightarrow>
             chunkLoop env engineID engine (Suc i) rest
               (called (GoChunkRestore cr engineID engine) rc1)))"

definition restoreEngine :: "env \<Rightarrow> string \<Rightarrow> int \<Rightarrow> EngineCheckpoint \<Rightarrow> RestoreController \<Rightarrow>
    (error + ClosedEngine) \<times> RestoreController" where
  "restoreEngine env tn engineID cp rc =
     (if EngineStatus cp \<ge> CheckpointStatusClosed (statuses env)
      then (unsafeCloseEngineRes env tn engineID, called (UnsafeCloseEngine tn engineID) rc)
      else
        (let rc1 = called (OpenEngine tn engineID) rc in
         case openEngineRes env tn engineID of
           Inl e \<Rightarrow> (Inl e, rc1)
         | Inr engine \<Rightarrow>
             (case chunkLoop env engineID engine 0 (Chunks cp) rc1 of
                (Some e, rc2) \<Rightarrow> (Inl e, rc2)
              | (None, rc2) \<Rightarrow>
                  (let rc3 = saveStatusCheckpoint env tn engineID (chunkErrFinal env)
                               (CheckpointStatusAllWritten (statuses env)) rc2 in
                   case chunkErrFinal env of
                     Some e \<Rightarrow> (Inl e, rc3)
                   | None \<Rightarrow>
                       (let rc4 = called (EngineClose engine) rc3;
                            res = engineCloseRes env engine;
                            rc5 = saveStatusCheckpoint env tn engineID
                                    (case res of Inl e \<Rightarrow> Some e | Inr _ \<Rightarrow> None)
                                    (CheckpointStatusClosed (statuses env)) rc4
                        in (res, rc5))))))"

text \<open>\<open>importKV\<close>: \<open>Import\<close>, and \<open>Cleanup\<close> when it succeeds.\<close>

definition importKV :: "env \<Rightarrow> ClosedEngine \<Rightarrow> RestoreController \<Rightarrow> error option \<times> RestoreController" where
  "importKV env closedEngine rc =
     (let rc1 = called (Import closedEngine) rc in
      case importRes env closedEngine of
        Some e \<Rightarrow> (Some e, rc1)
      | None \<Rightarrow> (None, called (Cleanup closedEngine) rc1))"

definition compactStateIdle :: int where
  "compactStateIdle = 0"

definition compactStateDoing :: int where
  "compactStateDoing = 1"

definition Level1Compact :: int where
  "Level1Compact = 1"

definition importEngine :: "env \<Rightarrow> string \<Rightarrow> ClosedEngine \<Rightarrow> int \<Rightarrow> EngineCheckpoint \<Rightarrow>
    RestoreController \<Rightarrow> error option \<times> RestoreController" where
  "importEngine env tn closedEngine engineID cp rc =
     (if EngineStatus cp \<ge> CheckpointStatusImported (statuses env) then (None, rc)
      else
        (case importKV env closedEngine rc of
           (e, rc1) \<Rightarrow>
             (let rc2 = saveStatusCheckpoint env tn engineID e
                          (CheckpointStatusImported (statuses env)) rc1 in
              if e \<noteq> None then (e, rc2)
              else if compactState rc2 = compactStateIdle
              then (None, called (GoCompact Level1Compact) (rc2\<lparr>compactState := compactStateDoing\<rparr>))
              else (None, rc2))))"

text \<open>The chunk tasks an execution has started: the \<open>GoChunkRestore\<close> calls among its calls.\<close>

fun startedTasks :: "call list \<Rightarrow> chunkRestore list" where
  "startedTasks [] = []"
| "startedTasks (GoChunkRestore cr engineID engine # cs) = cr # startedTasks cs"
| "startedTasks (c # cs) = startedTasks cs"

section \<open>The SQL side: \<open>increaseGCLifeTime\<close>, \<open>DoChecksum\<close>, \<open>compareChecksum\<close>\<close>

record RemoteChecksum =
  Schema :: string
  Table :: string
  Checksum :: "64 word"
  TotalKVs :: "64 word"
  TotalBytes :: "64 word"

text \<open>
  The database as this file sees it: the variable \<open>tikv_gc_life_time\<close>, the statements
  issued so far (oldest first), which of them fail (\<open>sqlFail n\<close> is the error of the
  statement issued when \<open>n\<close> were issued before it), and the row that
  \<open>ADMIN CHECKSUM TABLE\<close> answers.
\<close>

datatype sqlCall =
    ObtainGCLifeTimeCall
  | UpdateGCLifeTimeCall string
  | AdminChecksumCall string

record sqlDB =
  tikv_gc_life_time :: string
  sqlLog :: "sqlCall list"
  sqlFail :: "nat \<Rightarrow> error option"
  checksumRow :: RemoteChecksum

text \<open>
  Modelled from the spec: \<open>ObtainGCLifeTime\<close> and \<open>UpdateGCLifeTime\<close>, declared outside
  this file, get and set the variable \<open>tikv_gc_life_time\<close>; a statement that fails
  leaves the variable as it is.  \<open>QueryRowWithRetry\<close> with the \<open>ADMIN CHECKSUM TABLE\<close>
  query reads the checksum row.
\<close>

definition ObtainGCLifeTime :: "sqlDB \<Rightarrow> (error + string) \<times> sqlDB" where
  "ObtainGCLifeTime db =
     (let db1 = db\<lparr>sqlLog := sqlLog db @ [ObtainGCLifeTimeCall]\<rparr> in
      case sqlFail db (length (sqlLog db)) of
        Some e \<Rightarrow> (Inl e, db1)
      | None \<Rightarrow> (Inr (tikv_gc_life_time db), db1))"

definition UpdateGCLifeTime :: "string \<Rightarrow> sqlDB \<Rightarrow> error option \<times> sqlDB" where
  "UpdateGCLifeTime v db =
     (let db1 = db\<lparr>sqlLog := sqlLog db @ [UpdateGCLifeTimeCall v]\<rparr> in
      case sqlFail db (length (sqlLog db)) of
        Some e \<Rightarrow> (Some e, db1)
      | None \<Rightarrow> (None, db1\<lparr>tikv_gc_life_time := v\<rparr>))"

definition QueryChecksum :: "string \<Rightarrow> sqlDB \<Rightarrow> (error + RemoteChecksum) \<times> sqlDB" where
  "QueryChecksum table db =
     (let db1 = db\<lparr>sqlLog := sqlLog db @ [AdminChecksumCall table]\<rparr> in
      case sqlFail db (length (sqlLog db)) of
        Some e \<Rightarrow> (Inl e, db1)
      | None \<Rightarrow> (Inr (checksumRow db), db1))"

text \<open>
  \<open>defaultGCLifeTime\<close> is 100 hours, in nanoseconds as a \<open>time.Duration\<close> is;
  \<open>defaultGCLifeTime.String()\<close> prints it as \<open>100h0m0s\<close>.  \<open>time.ParseDuration\<close> is the
  parameter \<open>ParseDuration\<close>.
\<close>

definition defaultGCLifeTime :: int where
  "defaultGCLifeTime = 100 * (3600 * 1000000000)"

definition defaultGCLifeTime_String :: string where
  "defaultGCLifeTime_String = ''100h0m0s''"

definition increaseGCLifeTime :: "(string \<Rightarrow> error + int) \<Rightarrow> sqlDB \<Rightarrow> (error + string) \<times> sqlDB" where
  "increaseGCLifeTime ParseDuration db =
     (case ObtainGCLifeTime db of
        (Inl e, db1) \<Rightarrow> (Inl e, db1)
      | (Inr oriGCLifeTime, db1) \<Rightarrow>
          (case (if oriGCLifeTime \<noteq> []
                 then (case ParseDuration oriGCLifeTime of
                         Inl e \<Rightarrow> Inl e
                       | Inr ori \<Rightarrow> Inr (ori < defaultGCLifeTime))
                 else Inr True) of
             Inl e \<Rightarrow> (Inl e, db1)
           | Inr increase \<Rightarrow>
               if increase
               then (case UpdateGCLifeTime defaultGCLifeTime_String db1 of
                       (Some e, db2) \<Rightarrow> (Inl e, db2)
                     | (None, db2) \<Rightarrow> (Inr oriGCLifeTime, db2))
               else (Inr oriGCLifeTime, db1)))"

text \<open>
  \<open>DoChecksum\<close>.  The deferred function is registered once \<open>increaseGCLifeTime\<close> has
  returned without an error, and then runs on both returns that follow; its own error
  is only logged.
\<close>

definition DoChecksum :: "(string \<Rightarrow> error + int) \<Rightarrow> string \<Rightarrow> sqlDB \<Rightarrow>
    (error + RemoteChecksum) \<times> sqlDB" where
  "DoChecksum ParseDuration table db =
     (case increaseGCLifeTime ParseDuration db of
        (Inl e, db1) \<Rightarrow> (Inl e, db1)
      | (Inr ori, db1) \<Rightarrow>
          (case QueryChecksum table db1 of
             (res, db2) \<Rightarrow> (res, snd (UpdateGCLifeTime ori db2))))"

text \<open>The fold of all chunk checksums of a table, from the zero value.\<close>

definition localChecksumOf :: "TableCheckpoint \<Rightarrow> KVChecksum" where
  "localChecksumOf cp =
     foldl (\<lambda>c engine. foldl (\<lambda>c ccp. Add c (ChunkChecksum ccp)) c (Chunks engine))
       (MakeKVChecksum 0 0 0) (Engines cp)"

text \<open>\<open>%d\<close> of an unsigned 64-bit integer.\<close>

definition fmt_u64 :: "64 word \<Rightarrow> string" where
  "fmt_u64 w = fmt_d (unat w)"

definition mismatchMessage :: "RemoteChecksum \<Rightarrow> KVChecksum \<Rightarrow> string" where
  "mismatchMessage remoteChecksum localSum =
     ''checksum mismatched remote vs local => (checksum: '' @ fmt_u64 (Checksum remoteChecksum)
     @ '' vs '' @ fmt_u64 (Sum localSum)
     @ '') (total_kvs: '' @ fmt_u64 (TotalKVs remoteChecksum)
     @ '' vs '' @ fmt_u64 (SumKVS localSum)
     @ '') (total_bytes:'' @ fmt_u64 (TotalBytes remoteChecksum)
     @ '' vs '' @ fmt_u64 (SumSize localSum) @ '')''"

definition compareChecksum :: "(string \<Rightarrow> error + int) \<Rightarrow> string \<Rightarrow> TableCheckpoint \<Rightarrow> sqlDB \<Rightarrow>
    error option \<times> sqlDB" where
  "compareChecksum ParseDuration tn cp db =
     (let localSum = localChecksumOf cp in
      case DoChecksum ParseDuration tn db of
        (Inl e, db1) \<Rightarrow> (Some e, db1)
      | (Inr remoteChecksum, db1) \<Rightarrow>
          if Checksum remoteChecksum \<noteq> Sum localSum
             \<or> TotalKVs remoteChecksum \<noteq> SumKVS localSum
             \<or> TotalBytes remoteChecksum \<noteq> SumSize localSum
          then (Some (Errorf (mismatchMessage remoteChecksum localSum)), db1)
          else (None, db1))"

text \<open>The message with a space after every colon, as the three fields would read alike.\<close>

definition spacedMessage :: "RemoteChecksum \<Rightarrow> KVChecksum \<Rightarrow> string" where
  "spacedMessage remoteChecksum localSum =
     ''checksum mismatched remote vs local => (checksum: '' @ fmt_u64 (Checksum remoteChecksum)
     @ '' vs '' @ fmt_u64 (Sum localSum)
     @ '') (total_kvs: '' @ fmt_u64 (TotalKVs remoteChecksum)
     @ '' vs '' @ fmt_u64 (SumKVS localSum)
     @ '') (total_bytes: '' @ fmt_u64 (TotalBytes remoteChecksum)
     @ '' vs '' @ fmt_u64 (SumSize localSum) @ '')''"

section \<open>The hand-off between encoder and deliverer in \<open>chunkRestore.restore\<close>\<close>

definition maxKVQueueSize :: nat where
  "maxKVQueueSize = 128"

text \<open>
  The \<open>block\<close> that the two goroutines share under the lock of \<open>block.cond\<close>.  The
  lengths of the queue and of a batch are far below \<open>2^63 / 128\<close>, so the product in the
  guard is computed in \<open>nat\<close>.
\<close>

record block =
  encodeCompleted :: bool
  totalKVs :: "KvPair list"
  localChecksum :: KVChecksum
  chunkOffset :: int
  chunkRowID :: int

text \<open>
  The pipeline of one chunk: the shared \<open>block\<close>; the encoder's variable \<open>kvs\<close>
  (\<open>enc_kvs\<close>), its last encoded batch, with the parser's position and last row ID at
  that time; \<open>encoded\<close>, which says that this batch is not yet appended to the queue; and
  the deliverer's copy \<open>b\<close> of the block (\<open>deliverB\<close>).
\<close>

record pipeline =
  blk :: block
  enc_kvs :: "KvPair list"
  enc_pos :: int
  enc_rowID :: int
  encoded :: bool
  deliverB :: block

text \<open>
  Every access to the block is inside a critical section, so an execution is a sequence
  of these steps.  \<open>Encode\<close>: \<open>SQL2KV\<close> returns a batch to the encoder.  \<open>Enqueue\<close>: the
  encoder's critical section; it waits on the condition variable while the guard of its
  loop holds, so the step is possible only when the guard is false.  \<open>Complete\<close>: the
  encoder sets \<open>encodeCompleted\<close>.  \<open>Deliver\<close>: the deliverer's critical section, which
  waits while the queue is empty and encoding is not completed.
\<close>

datatype action = Encode "KvPair list" int int | Enqueue | Complete | Deliver

definition block0 :: block where
  "block0 = \<lparr>encodeCompleted = False, totalKVs = [], localChecksum = MakeKVChecksum 0 0 0,
             chunkOffset = 0, chunkRowID = 0\<rparr>"

definition pipeline0 :: pipeline where
  "pipeline0 = \<lparr>blk = block0, enc_kvs = [], enc_pos = 0, enc_rowID = 0, encoded = False,
                deliverB = block0\<rparr>"

fun step :: "(8 word list \<Rightarrow> 64 word) \<Rightarrow> action \<Rightarrow> pipeline \<Rightarrow> pipeline option" where
  "step crc64 (Encode batch p rowID) s =
     (if encoded s \<or> encodeCompleted (blk s) then None
      else Some (s\<lparr>enc_kvs := batch, enc_pos := p, enc_rowID := rowID, encoded := True\<rparr>))"
| "step crc64 Enqueue s =
     (if \<not> encoded s then None
      else if length (totalKVs (blk s)) > length (enc_kvs s) * maxKVQueueSize then None
      else Some (s\<lparr>blk := (blk s)\<lparr>totalKVs := totalKVs (blk s) @ enc_kvs s,
                                  localChecksum := Update crc64 (localChecksum (blk s)) (enc_kvs s),
                                  chunkOffset := enc_pos s,
                                  chunkRowID := enc_rowID s\<rparr>,
                    encoded := False\<rparr>))"
| "step crc64 Complete s =
     (if encoded s \<or> encodeCompleted (blk s) then None
      else Some (s\<lparr>blk := (blk s)\<lparr>encodeCompleted := True\<rparr>\<rparr>))"
| "step crc64 Deliver s =
     (if \<not> encodeCompleted (blk s) \<and> length (totalKVs (blk s)) = 0 then None
      else Some (s\<lparr>deliverB := blk s,
                    blk := (blk s)\<lparr>totalKVs := [], localChecksum := MakeKVChecksum 0 0 0\<rparr>\<rparr>))"

fun run :: "(8 word list \<Rightarrow> 64 word) \<Rightarrow> action list \<Rightarrow> pipeline \<Rightarrow> pipeline option" where
  "run crc64 [] s = Some s"
| "run crc64 (a # as) s = (case step crc64 a s of None \<Rightarrow> None | Some s' \<Rightarrow> run crc64 as s')"

text \<open>The pending queue holds at most \<open>k\<close> times the length of the last encoded batch.\<close>

definition queueWithin :: "nat \<Rightarrow> pipeline \<Rightarrow> bool" where
  "queueWithin k s = (length (totalKVs (blk s)) \<le> k * length (enc_kvs s))"

section \<open>Predicates of the properties\<close>

text \<open>
  A chunk task resumes a chunk of the engine checkpoint: it is the task of the chunk at
  its index, that chunk is not finished, and its parser is set to the chunk's saved
  offset with row-ID position \<open>PrevRowIDMax\<close>.
\<close>

definition resumedAt :: "ChunkCheckpoint list \<Rightarrow> chunkRestore \<Rightarrow> bool" where
  "resumedAt chunks cr =
     (index cr < length chunks \<and> chunk cr = chunks ! index cr
      \<and> Offset (Chunk (chunk cr)) < EndOffset (Chunk (chunk cr))
      \<and> pos (parser cr) = Offset (Chunk (chunk cr))
      \<and> lastRowID (parser cr) = PrevRowIDMax (Chunk (chunk cr)))"

text \<open>
  Where the file of a chunk task stands when the task starts: at the chunk's saved
  offset when the seek has succeeded, at the start of the file when it has failed.
\<close>

definition readerAfterSeek :: "env \<Rightarrow> ChunkCheckpoint \<Rightarrow> int" where
  "readerAfterSeek env ccp =
     (case seekRes env (Path (ChunkKey ccp)) (Offset (Chunk ccp)) of
        None \<Rightarrow> Offset (Chunk ccp)
      | Some e \<Rightarrow> 0)"

text \<open>The calls made between two states of the controller.\<close>

definition newCalls :: "RestoreController \<Rightarrow> RestoreController \<Rightarrow> call list" where
  "newCalls rc rc' = drop (length (calls rc)) (calls rc')"

text \<open>
  The invariant of the hand-off: unless the encoder holds a batch that it has not yet
  appended, the queue holds at most \<open>maxKVQueueSize + 1\<close> times the length of the last
  batch.
\<close>

definition handoffInv :: "pipeline \<Rightarrow> bool" where
  "handoffInv s = (\<not> encoded s \<longrightarrow> queueWithin (maxKVQueueSize + 1) s)"

section \<open>Example inputs\<close>

text \<open>
  One choice of the parameters, to run the functions on: status constants in their
  order, a cancellation test that recognises \<open>ctx.Err()\<close>, collaborators that succeed,
  and files that seek to every offset but a negative one.
\<close>

definition statuses0 :: CheckpointStatuses where
  "statuses0 = \<lparr>CheckpointStatusLoaded = 30, CheckpointStatusAllWritten = 60,
                CheckpointStatusClosed = 90, CheckpointStatusImported = 120\<rparr>"

definition region0 :: TableRegion where
  "region0 = \<lparr>EngineID = 1, File = ''t.1.sql'',
              RegionChunk = \<lparr>Offset = 0, EndOffset = 100, PrevRowIDMax = 0, RowIDMax = 25\<rparr>\<rparr>"

definition env0 :: env where
  "env0 = \<lparr>statuses = statuses0,
           IsContextCanceledError = (\<lambda>e. e = CtxErr),
           SetInvalid = (\<lambda>m. case m of
                                StatusCheckpointMerger eid st \<Rightarrow> StatusCheckpointMerger eid (st div 10)
                              | _ \<Rightarrow> m),
           unsafeCloseEngineRes = (\<lambda>tn eid. Inr 7),
           openEngineRes = (\<lambda>tn eid. Inr 3),
           ctxDoneAt = (\<lambda>i. False),
           chunkErrAt = (\<lambda>i. False),
           osOpenRes = (\<lambda>p. None),
           seekRes = (\<lambda>p off. if off < 0 then Some (External ''invalid argument'') else None),
           chunkErrFinal = None,
           engineCloseRes = (\<lambda>engine. Inr 7),
           importRes = (\<lambda>closedEngine. None),
           makeTableRegionsRes = Inr [region0],
           insertEngineCheckpointsRes = None\<rparr>"

definition rc0 :: RestoreController where
  "rc0 = \<lparr>saveCpCh = [], summary = Map.empty, compactState = 0, calls = []\<rparr>"

definition t0 :: TableRestore where
  "t0 = \<lparr>t_tableName = ''`db`.`t`'', t_tableID = 5, t_AutoIncID = 7\<rparr>"

definition cpFresh :: TableCheckpoint where
  "cpFresh = \<lparr>Status = 30, AllocBase = 0, Engines = []\<rparr>"

definition chunkDone :: ChunkCheckpoint where
  "chunkDone = \<lparr>ChunkKey = \<lparr>Path = ''t.0.sql'', KeyOffset = 0\<rparr>, Columns = None,
                Chunk = \<lparr>Offset = 100, EndOffset = 100, PrevRowIDMax = 12, RowIDMax = 12\<rparr>,
                ChunkChecksum = MakeKVChecksum 30 3 9, ShouldIncludeRowID = False\<rparr>"

definition chunkHalf :: ChunkCheckpoint where
  "chunkHalf = \<lparr>ChunkKey = \<lparr>Path = ''t.1.sql'', KeyOffset = 0\<rparr>, Columns = None,
                Chunk = \<lparr>Offset = 40, EndOffset = 100, PrevRowIDMax = 17, RowIDMax = 25\<rparr>,
                ChunkChecksum = MakeKVChecksum 10 1 5, ShouldIncludeRowID = False\<rparr>"

definition engine0 :: "CheckpointStatus \<Rightarrow> EngineCheckpoint" where
  "engine0 st = \<lparr>EngineStatus = st, Chunks = [chunkDone, chunkHalf]\<rparr>"

definition cpWritten :: TableCheckpoint where
  "cpWritten = \<lparr>Status = 150, AllocBase = 25,
                Engines = [\<lparr>EngineStatus = 120, Chunks = [chunkHalf]\<rparr>]\<rparr>"

definition ParseDuration0 :: "string \<Rightarrow> error + int" where
  "ParseDuration0 s = (if s = ''10m0s'' then Inr 600000000000
                       else if s = ''200h0m0s'' then Inr 720000000000000
                       else Inl (External ''invalid duration''))"

definition row0 :: RemoteChecksum where
  "row0 = \<lparr>Schema = ''db'', Table = ''t'', Checksum = 5, TotalKVs = 2, TotalBytes = 20\<rparr>"

definition db0 :: "string \<Rightarrow> (nat \<Rightarrow> error option) \<Rightarrow> sqlDB" where
  "db0 v fails = \<lparr>tikv_gc_life_time = v, sqlLog = [], sqlFail = fails, checksumRow = row0\<rparr>"

definition failAt :: "nat \<Rightarrow> nat \<Rightarrow> error option" where
  "failAt k n = (if n = k then Some (External ''statement failed'') else None)"

definition kv0 :: KvPair where
  "kv0 = \<lparr>Key = [1], Val = [2]\<rparr>"

definition crc0 :: "8 word list \<Rightarrow> 64 word" where
  "crc0 bs = 0"

text \<open>
  An execution of the hand-off in which the deliverer does not run: a batch of 128
  pairs is appended, then a batch of one pair is encoded (\<open>slowDelivery\<close>) and appended
  (\<open>slowDelivery @ [Enqueue]\<close>).
\<close>

definition slowDelivery :: "action list" where
  "slowDelivery = [Encode (replicate 128 kv0) 10 128, Enqueue, Encode [kv0] 20 129]"

text \<open>
  An execution in which the encoder has to wait: the queue holds 129 pairs when a batch
  of one pair is encoded.
\<close>

definition blockedDelivery :: "action list" where
  "blockedDelivery = [Encode (replicate 129 kv0) 10 129, Enqueue, Encode [kv0] 20 130]"

text \<open>What step 1 of \<open>restoreTable\<close> makes of \<open>region0\<close> for a fresh table.\<close>

definition enginesNew :: "EngineCheckpoint list" where
  "enginesNew =
     [\<lparr>EngineStatus = 30, Chunks = []\<rparr>,
      \<lparr>EngineStatus = 30,
       Chunks = [\<lparr>ChunkKey = \<lparr>Path = ''t.1.sql'', KeyOffset = 0\<rparr>, Columns = None,
                  Chunk = \<lparr>Offset = 0, EndOffset = 100, PrevRowIDMax = 0, RowIDMax = 25\<rparr>,
                  ChunkChecksum = MakeKVChecksum 0 0 0, ShouldIncludeRowID = False\<rparr>]\<rparr>]"

definition cpLoaded :: TableCheckpoint where
  "cpLoaded = \<lparr>Status = 30, AllocBase = 25, Engines = enginesNew\<rparr>"

definition rcLoaded :: RestoreController where
  "rcLoaded = \<lparr>saveCpCh = [\<lparr>tableName = ''`db`.`t`'', merger = RebaseCheckpointMerger 25\<rparr>],
                summary = Map.empty, compactState = 0,
                calls = [MakeTableRegions, InsertEngineCheckpoints ''`db`.`t`'' enginesNew,
                         AllocRebase 5 25 False]\<rparr>"

text \<open>The task that resumes \<open>chunkHalf\<close>, the second chunk of \<open>engine0\<close>.\<close>

definition taskHalf :: chunkRestore where
  "taskHalf = \<lparr>parser = \<lparr>readerPos = 40, pos = 40, lastRowID = 17\<rparr>, index = 1,
               chunk = chunkHalf\<rparr>"




text \<open>A context that is cancelled before statement \<open>k\<close>: that statement and all later ones fail.\<close>

definition failFrom :: "nat \<Rightarrow> nat \<Rightarrow> error option" where
  "failFrom k n = (if k \<le> n then Some (External ''context canceled'') else None)"

section \<open>Properties of \<open>splitIntoDeliveryStreams\<close>\<close>

lemma slice_Suc: "i \<le> j \<Longrightarrow> j < length s \<Longrightarrow> slice s i (Suc j) = slice s i j @ [s ! j]"
  unfolding slice_def
  by (simp add: Suc_diff_le take_Suc_conv_app_nth)

lemma slice_same: "slice s i i = []"
  by (simp add: slice_def)

lemma take_slice: "i \<le> j \<Longrightarrow> take i s @ slice s i j = take j s"
  unfolding slice_def
  by (metis le_add_diff_inverse take_add)

lemma batchSize_append: "batchSize (a @ b) = batchSize a + batchSize b"
  by (simp add: batchSize_def)

lemma batchSize_single: "batchSize [p] = pairSize p"
  by (simp add: batchSize_def)

lemma pairSize_nonneg: "0 \<le> pairSize p"
  by (simp add: pairSize_def)

lemma batchSize_nonneg: "0 \<le> batchSize b"
  unfolding batchSize_def
  by (induction b) (simp_all add: pairSize_nonneg)

lemma pairSize_le_batchSize: "p \<in> set b \<Longrightarrow> pairSize p \<le> batchSize b"
proof (induction b)
  case Nil
  then show ?case by simp
next
  case (Cons q b)
  have "batchSize (q # b) = pairSize q + batchSize b"
    by (simp add: batchSize_def)
  with Cons pairSize_nonneg[of q] batchSize_nonneg[of b] show ?case
    by auto
qed

text \<open>
  The loop invariant: \<open>res\<close> holds the batches cut so far, which together are
  \<open>totalKVs[:i]\<close>; \<open>cumSize\<close> is the size of the open batch \<open>totalKVs[i:j]\<close>; every cut
  batch and the open batch are within the limit or are one oversized pair.
\<close>

lemma splitLoop_inv:
  assumes "rest = drop j input" "i \<le> j" "j \<le> length input"
    "concat res = take i input"
    "cumSize = batchSize (slice input i j)"
    "\<forall>b \<in> set res. okBatch S b"
    "okBatch S (slice input i j)"
  shows "concat (splitLoop input S j rest res i cumSize) = input
       \<and> (\<forall>b \<in> set (splitLoop input S j rest res i cumSize). okBatch S b)"
  using assms
proof (induction rest arbitrary: j res i cumSize)
  case Nil
  then have "j = length input" by simp
  with Nil show ?case by (simp add: slice_def)
next
  case (Cons pair rest)
  from Cons.prems(1) have jlt: "j < length input"
    by (metis drop_all list.distinct(1) not_le)
  from Cons.prems(1) jlt have pair: "pair = input ! j" and rest: "rest = drop (Suc j) input"
    by (metis Cons_nth_drop_Suc list.inject)+
  have sl: "slice input i (Suc j) = slice input i j @ [pair]"
    using slice_Suc[OF Cons.prems(2) jlt] pair by simp
  show ?case
  proof (cases "i < j \<and> cumSize + pairSize pair > S")
    case True
    have a: "concat (res @ [slice input i j]) = take j input"
      using Cons.prems(4) take_slice[OF Cons.prems(2)] by simp
    have b: "0 + pairSize pair = batchSize (slice input j (Suc j))"
      using slice_Suc[of j j input] jlt pair by (simp add: slice_same batchSize_single)
    have c: "\<forall>b \<in> set (res @ [slice input i j]). okBatch S b"
      using Cons.prems(6,7) by simp
    have d: "okBatch S (slice input j (Suc j))"
      using slice_Suc[of j j input] jlt pair
      by (auto simp: slice_same okBatch_def batchSize_single)
    have unf: "splitLoop input S j (pair # rest) res i cumSize
        = splitLoop input S (Suc j) rest (res @ [slice input i j]) j (0 + pairSize pair)"
      using True by (simp add: Let_def)
    have "j \<le> Suc j" "Suc j \<le> length input" using jlt by simp_all
    from Cons.IH[OF rest this a b c d] show ?thesis
      unfolding unf .
  next
    case False
    have b: "cumSize + pairSize pair = batchSize (slice input i (Suc j))"
      using sl Cons.prems(5) by (simp add: batchSize_append batchSize_single)
    have d: "okBatch S (slice input i (Suc j))"
    proof (cases "i < j")
      case True
      with False b show ?thesis by (simp add: okBatch_def)
    next
      case False
      with Cons.prems(2) have "i = j" by simp
      then show ?thesis using sl by (auto simp: slice_same okBatch_def batchSize_single)
    qed
    have unf: "splitLoop input S j (pair # rest) res i cumSize
        = splitLoop input S (Suc j) rest res i (cumSize + pairSize pair)"
      using False by (auto simp add: Let_def)
    have "i \<le> Suc j" "Suc j \<le> length input" using jlt Cons.prems(2) by simp_all
    from Cons.IH[OF rest this Cons.prems(4) b Cons.prems(6) d] show ?thesis
      unfolding unf .
  qed
qed

lemma splitIntoDeliveryStreams_okBatch:
  assumes "0 < S"
  shows "concat (splitIntoDeliveryStreams pairs S) = pairs
       \<and> (\<forall>b \<in> set (splitIntoDeliveryStreams pairs S). okBatch S b)"
  unfolding splitIntoDeliveryStreams_def
  using assms by (intro splitLoop_inv) (simp_all add: slice_same okBatch_def batchSize_def)

text \<open>
  Claim C6.  For every list of KV pairs and every positive split size \<open>S\<close>, the
  sub-batches of \<open>splitIntoDeliveryStreams\<close>, concatenated in order, are the input;
  every sub-batch has a cumulative byte size of at most \<open>S\<close> or consists of one pair
  that alone exceeds \<open>S\<close>; and a pair that alone exceeds \<open>S\<close> is the only pair of its
  sub-batch.
\<close>

theorem splitIntoDeliveryStreams_concat_bounded:
  assumes "0 < S"
  shows "concat (splitIntoDeliveryStreams pairs S) = pairs
       \<and> (\<forall>b \<in> set (splitIntoDeliveryStreams pairs S).
            (batchSize b \<le> S \<or> (\<exists>p. b = [p] \<and> S < pairSize p))
            \<and> (\<forall>p \<in> set b. S < pairSize p \<longrightarrow> b = [p]))"
proof -
  note ok = splitIntoDeliveryStreams_okBatch[OF assms, of pairs]
  have "b = [p]" if "b \<in> set (splitIntoDeliveryStreams pairs S)" "p \<in> set b" "S < pairSize p" for b p
  proof -
    from that(2,3) have "\<not> batchSize b \<le> S"
      using pairSize_le_batchSize[of p b] by simp
    with ok that(1) obtain q where "b = [q]"
      unfolding okBatch_def by blast
    with that(2) show ?thesis by simp
  qed
  with ok show ?thesis
    unfolding okBatch_def by blast
qed

theorem splitIntoDeliveryStreams_concat_bounded_witness:
  "(0::int) < 6
   \<and> splitIntoDeliveryStreams
        [\<lparr>Key = [1], Val = [2]\<rparr>, \<lparr>Key = [1, 2], Val = [3, 4]\<rparr>,
         \<lparr>Key = [1, 2, 3, 4, 5], Val = [6, 7]\<rparr>, \<lparr>Key = [9], Val = []\<rparr>] 6
       = [[\<lparr>Key = [1], Val = [2]\<rparr>, \<lparr>Key = [1, 2], Val = [3, 4]\<rparr>],
          [\<lparr>Key = [1, 2, 3, 4, 5], Val = [6, 7]\<rparr>], [\<lparr>Key = [9], Val = []\<rparr>]]
   \<and> concat (splitIntoDeliveryStreams
        [\<lparr>Key = [1], Val = [2]\<rparr>, \<lparr>Key = [1, 2], Val = [3, 4]\<rparr>,
         \<lparr>Key = [1, 2, 3, 4, 5], Val = [6, 7]\<rparr>, \<lparr>Key = [9], Val = []\<rparr>] 6)
       = [\<lparr>Key = [1], Val = [2]\<rparr>, \<lparr>Key = [1, 2], Val = [3, 4]\<rparr>,
          \<lparr>Key = [1, 2, 3, 4, 5], Val = [6, 7]\<rparr>, \<lparr>Key = [9], Val = []\<rparr>]
   \<and> list_all (\<lambda>b. (batchSize b \<le> 6 \<or> (\<exists>p. b = [p] \<and> 6 < pairSize p))
                     \<and> (\<forall>p \<in> set b. 6 < pairSize p \<longrightarrow> b = [p]))
        (splitIntoDeliveryStreams
          [\<lparr>Key = [1], Val = [2]\<rparr>, \<lparr>Key = [1, 2], Val = [3, 4]\<rparr>,
           \<lparr>Key = [1, 2, 3, 4, 5], Val = [6, 7]\<rparr>, \<lparr>Key = [9], Val = []\<rparr>] 6)"
proof -
  have pos: "(0::int) < 6" by simp
  have run: "splitIntoDeliveryStreams
        [\<lparr>Key = [1], Val = [2]\<rparr>, \<lparr>Key = [1, 2], Val = [3, 4]\<rparr>,
         \<lparr>Key = [1, 2, 3, 4, 5], Val = [6, 7]\<rparr>, \<lparr>Key = [9], Val = []\<rparr>] 6
       = [[\<lparr>Key = [1], Val = [2]\<rparr>, \<lparr>Key = [1, 2], Val = [3, 4]\<rparr>],
          [\<lparr>Key = [1, 2, 3, 4, 5], Val = [6, 7]\<rparr>], [\<lparr>Key = [9], Val = []\<rparr>]]"
    by (simp add: splitIntoDeliveryStreams_def pairSize_def slice_def)
  from splitIntoDeliveryStreams_concat_bounded[OF pos,
      of "[\<lparr>Key = [1], Val = [2]\<rparr>, \<lparr>Key = [1, 2], Val = [3, 4]\<rparr>,
         \<lparr>Key = [1, 2, 3, 4, 5], Val = [6, 7]\<rparr>, \<lparr>Key = [9], Val = []\<rparr>]"] pos run
  show ?thesis unfolding list_all_iff by blast
qed

section \<open>Properties of the version gate\<close>

lemma length_Split: "length (Split s sep) = Suc (countSep s sep)"
  by (induction s) (auto simp: countSep_def split: list.splits)

lemma Split_nonempty: "Split s sep \<noteq> []"
  by (induction s) (auto split: list.splits)

text \<open>Joining the segments with the separator gives the string back.\<close>

lemma Join_Split: "Join (Split s sep) [sep] = s"
proof (induction s)
  case Nil
  then show ?case by simp
next
  case (Cons c s)
  obtain w ws where sp: "Split s sep = w # ws"
    using Split_nonempty[of s sep] by (cases "Split s sep") auto
  show ?case
  proof (cases "c = sep")
    case True
    with Cons sp show ?thesis by simp
  next
    case False
    with Cons sp show ?thesis by (cases ws) auto
  qed
qed

lemma slice_from: "n = length s \<Longrightarrow> slice s i n = drop i s"
  by (simp add: slice_def)

lemma slice_drop_last_two: "n = length s \<Longrightarrow> slice s i (n - 2) = drop i (butlast (butlast s))"
  by (simp add: slice_def butlast_conv_take drop_take)

text \<open>
  Claim C8.  For every input string, with \<open>segs\<close> its segments between the \<open>-\<close>
  separators (one more than there are separators, so at least one):
  with 3 or 4 segments \<open>extractTiDBVersion\<close> parses, as semver, the join of the segments
  from the third on, a leading \<open>v\<close> stripped; with 5 or 6 segments it drops the last two
  and parses the join of the rest from the third on in the same way; with 1, 2, 7 or more
  segments it fails with the message \<open>not a valid TiDB version: \<close> followed by the raw
  input.
\<close>

theorem extractTiDBVersion_segments:
  "length (Split version (CHR ''-'')) = Suc (countSep version (CHR ''-''))
   \<and> (length (Split version (CHR ''-'')) \<in> {3, 4} \<longrightarrow>
        extractTiDBVersion NewVersion version
          = NewVersion (TrimPrefix (Join (drop 2 (Split version (CHR ''-''))) ''-'') ''v''))
   \<and> (length (Split version (CHR ''-'')) \<in> {5, 6} \<longrightarrow>
        extractTiDBVersion NewVersion version
          = NewVersion (TrimPrefix
              (Join (drop 2 (butlast (butlast (Split version (CHR ''-''))))) ''-'') ''v''))
   \<and> (length (Split version (CHR ''-'')) \<in> {1, 2} \<or> 7 \<le> length (Split version (CHR ''-'')) \<longrightarrow>
        extractTiDBVersion NewVersion version
          = Inl (Errorf (''not a valid TiDB version: '' @ version)))"
proof -
  let ?segs = "Split version (CHR ''-'')"
  have a: "length ?segs = Suc (countSep version (CHR ''-''))"
    by (rule length_Split)
  have b: "extractTiDBVersion NewVersion version
          = NewVersion (TrimPrefix (Join (drop 2 ?segs) ''-'') ''v'')"
    if "length ?segs \<in> {3, 4}"
    using that slice_from[of "length ?segs" ?segs 2]
    by (auto simp: extractTiDBVersion_def Let_def)
  have c: "extractTiDBVersion NewVersion version
          = NewVersion (TrimPrefix (Join (drop 2 (butlast (butlast ?segs))) ''-'') ''v'')"
    if "length ?segs \<in> {5, 6}"
    using that slice_drop_last_two[of "length ?segs" ?segs 2]
    by (auto simp: extractTiDBVersion_def Let_def)
  have d: "extractTiDBVersion NewVersion version
          = Inl (Errorf (''not a valid TiDB version: '' @ version))"
    if "length ?segs \<in> {1, 2} \<or> 7 \<le> length ?segs"
    using that by (auto simp: extractTiDBVersion_def Let_def)
  from a b c d show ?thesis by blast
qed

theorem extractTiDBVersion_segments_witness:
  "length (Split ''5.7.10-TiDB-v2.0.7'' (CHR ''-'')) = 3
   \<and> extractTiDBVersion Inr ''5.7.10-TiDB-v2.0.7'' = (Inr ''2.0.7'' :: error + string)
   \<and> length (Split ''5.7.10-TiDB-v2.1.0-rc.1-7-g38c939f'' (CHR ''-'')) = 6
   \<and> extractTiDBVersion Inr ''5.7.10-TiDB-v2.1.0-rc.1-7-g38c939f''
       = (Inr ''2.1.0-rc.1'' :: error + string)
   \<and> length (Split ''5.7.10-TiDB'' (CHR ''-'')) = 2
   \<and> extractTiDBVersion Inr ''5.7.10-TiDB''
       = (Inl (Errorf ''not a valid TiDB version: 5.7.10-TiDB'') :: error + string)"
proof -
  have s3: "Split ''5.7.10-TiDB-v2.0.7'' (CHR ''-'') = [''5.7.10'', ''TiDB'', ''v2.0.7'']"
    by simp
  have s6: "Split ''5.7.10-TiDB-v2.1.0-rc.1-7-g38c939f'' (CHR ''-'')
      = [''5.7.10'', ''TiDB'', ''v2.1.0'', ''rc.1'', ''7'', ''g38c939f'']"
    by simp
  have s2: "Split ''5.7.10-TiDB'' (CHR ''-'') = [''5.7.10'', ''TiDB'']"
    by simp
  have r3: "extractTiDBVersion Inr ''5.7.10-TiDB-v2.0.7'' = (Inr ''2.0.7'' :: error + string)"
    using extractTiDBVersion_segments[of "''5.7.10-TiDB-v2.0.7''" "Inr :: string \<Rightarrow> error + string"]
    unfolding s3 by (simp add: TrimPrefix_def)
  have r6: "extractTiDBVersion Inr ''5.7.10-TiDB-v2.1.0-rc.1-7-g38c939f''
       = (Inr ''2.1.0-rc.1'' :: error + string)"
    using extractTiDBVersion_segments[of "''5.7.10-TiDB-v2.1.0-rc.1-7-g38c939f''"
        "Inr :: string \<Rightarrow> error + string"]
    unfolding s6 by (simp add: TrimPrefix_def)
  have r2: "extractTiDBVersion Inr ''5.7.10-TiDB''
       = (Inl (Errorf ''not a valid TiDB version: 5.7.10-TiDB'') :: error + string)"
    using extractTiDBVersion_segments[of "''5.7.10-TiDB''" "Inr :: string \<Rightarrow> error + string"]
    unfolding s2 by simp
  from r3 r6 r2 show ?thesis unfolding s3 s6 s2 by simp
qed

text \<open>
  Claim C9.  For every component name and every two versions, \<open>checkVersion\<close> returns an
  error exactly when the actual version compares strictly below the expected one, and
  \<open>nil\<close> when it equals or exceeds it; the error message is the component, then
  \<open>version too old, expected '>=\<close>, the expected version, \<open>', found '\<close>, the actual
  version and a closing quote.
\<close>

theorem checkVersion_too_old:
  "(checkVersion Compare String component expected actual \<noteq> None
      \<longleftrightarrow> Compare actual expected < 0)
   \<and> (0 \<le> Compare actual expected \<longrightarrow>
        checkVersion Compare String component expected actual = None)
   \<and> (Compare actual expected < 0 \<longrightarrow>
        checkVersion Compare String component expected actual
          = Some (Errorf (component @ '' version too old, expected '>='' @ String expected
                          @ [CHR 0x27] @ '', found '' @ [CHR 0x27] @ String actual
                          @ [CHR 0x27])))"
  by (auto simp: checkVersion_def)

theorem checkVersion_too_old_witness:
  "plainCompare (2, 0, 9) (2, 1, 0) < 0
   \<and> checkVersion plainCompare plainString ''PD'' (2, 1, 0) (2, 0, 9)
       = Some (Errorf (''PD version too old, expected '>=2.1.0', found '2.0.9'' @ [CHR 0x27]))
   \<and> 0 \<le> plainCompare (2, 1, 3) (2, 1, 0)
   \<and> checkVersion plainCompare plainString ''TiDB'' (2, 1, 0) (2, 1, 3) = None"
proof -
  have lt: "plainCompare (2, 0, 9) (2, 1, 0) < 0"
    by (simp add: plainCompare_def)
  have ge: "0 \<le> plainCompare (2, 1, 3) (2, 1, 0)"
    by (simp add: plainCompare_def)
  have old: "checkVersion plainCompare plainString ''PD'' (2, 1, 0) (2, 0, 9)
       = Some (Errorf (''PD version too old, expected '>=2.1.0', found '2.0.9'' @ [CHR 0x27]))"
    using checkVersion_too_old[of plainCompare plainString "''PD''" "(2, 1, 0)" "(2, 0, 9)"] lt
    by (simp add: plainString_def fmt_d.simps)
  have new: "checkVersion plainCompare plainString ''TiDB'' (2, 1, 0) (2, 1, 3) = None"
    using checkVersion_too_old[of plainCompare plainString "''TiDB''" "(2, 1, 0)" "(2, 1, 3)"] ge
    by simp
  from lt ge old new show ?thesis by simp
qed

section \<open>Properties of \<open>initializeColumns\<close>\<close>

lemma foldl_buf:
  "foldl (\<lambda>buf name. buf @ name @ x) acc cols = acc @ concat (map (\<lambda>n. n @ x) cols)"
  by (induction cols arbitrary: acc) simp_all

lemma Join_quoted:
  "Join (map (\<lambda>n. ''`'' @ n @ ''`'') (cols @ [r])) '',''
     = ''`'' @ concat (map (\<lambda>n. n @ ''`,`'') cols) @ r @ ''`''"
proof (induction cols)
  case Nil
  then show ?case by simp
next
  case (Cons a cols)
  then show ?case by (cases cols) simp_all
qed

lemma initializeColumns_nil:
  "initializeColumns False cols None = (Some (quotedList (cols @ [ExtraHandleName])), True)"
  unfolding initializeColumns_def quotedList_def Join_quoted
  by (simp add: tidbRowIDColumnRegex_Match_def foldl_buf)

lemma initializeColumns_append:
  "\<not> tidbRowIDColumnRegex_Match (Some c) \<Longrightarrow> c \<noteq> [] \<Longrightarrow>
   initializeColumns False cols (Some c) = (Some (butlast c @ '',`_tidb_rowid`)''), True)"
  by (simp add: initializeColumns_def ExtraHandleName_def butlast_conv_take)

lemma no_rowid_in_a_b: "\<not> tidbRowIDColumnRegex_Match (Some ''(a,b)'')"
  by code_simp

lemma rowid_in_a_rowid: "tidbRowIDColumnRegex_Match (Some ''(a,_tidb_rowid)'')"
  by code_simp

text \<open>
  Claim C7, as amended.  (i) With no column list and a primary key that is not the
  handle, the result is the parenthesised list of all declared columns followed by the
  row-ID column, each name in backticks, and \<open>shouldIncludeRowID\<close> is true.  (ii) With
  the column list \<open>(a,b)\<close> the result is \<^verbatim>\<open>(a,b,`_tidb_rowid`)\<close>, the appended name in
  backticks, and \<open>shouldIncludeRowID\<close> is true.  (iii) With a column list that the
  row-ID pattern matches, \<open>(a,_tidb_rowid)\<close> among them, the result is the input and
  \<open>shouldIncludeRowID\<close> is false.  (iv) With no column list and a primary key that is
  the handle, the result is the empty list and \<open>shouldIncludeRowID\<close> is false.
\<close>

theorem initializeColumns_cases:
  "initializeColumns False coreColumns None
     = (Some (quotedList (coreColumns @ [ExtraHandleName])), True)
   \<and> initializeColumns False coreColumns (Some ''(a,b)'') = (Some ''(a,b,`_tidb_rowid`)'', True)
   \<and> (tidbRowIDColumnRegex_Match (Some columns) \<longrightarrow>
        initializeColumns False coreColumns (Some columns) = (Some columns, False))
   \<and> initializeColumns False coreColumns (Some ''(a,_tidb_rowid)'')
       = (Some ''(a,_tidb_rowid)'', False)
   \<and> initializeColumns True coreColumns None = (Some [], False)"
proof -
  have ii: "initializeColumns False coreColumns (Some ''(a,b)'')
      = (Some ''(a,b,`_tidb_rowid`)'', True)"
    using initializeColumns_append[OF no_rowid_in_a_b, of coreColumns] by simp
  have iii: "initializeColumns False coreColumns (Some c) = (Some c, False)"
    if "tidbRowIDColumnRegex_Match (Some c)" for c
    using that by (simp add: initializeColumns_def)
  have iv: "initializeColumns True coreColumns None = (Some [], False)"
    by (simp add: initializeColumns_def)
  from initializeColumns_nil[of coreColumns] ii iii[of columns] iii[OF rowid_in_a_rowid] iv
  show ?thesis by blast
qed

theorem initializeColumns_cases_witness:
  "tidbRowIDColumnRegex_Match (Some ''(`a`,`_tidb_rowid`)'')
   \<and> initializeColumns False [''a'', ''b''] (Some ''(`a`,`_tidb_rowid`)'')
       = (Some ''(`a`,`_tidb_rowid`)'', False)
   \<and> initializeColumns False [''a'', ''b''] None = (Some ''(`a`,`b`,`_tidb_rowid`)'', True)"
proof -
  have m: "tidbRowIDColumnRegex_Match (Some ''(`a`,`_tidb_rowid`)'')"
    by code_simp
  from initializeColumns_cases[of "[''a'', ''b'']" "''(`a`,`_tidb_rowid`)''"] m
  show ?thesis by (simp add: quotedList_def ExtraHandleName_def)
qed

text \<open>
  Claim C7 as stated gives \<open>(a,b,_tidb_rowid)\<close> for case (ii); the appended name comes
  in backticks.
\<close>

theorem initializeColumns_a_b_counterexample:
  "fst (initializeColumns False [''a'', ''b''] (Some ''(a,b)'')) = Some ''(a,b,`_tidb_rowid`)''
   \<and> fst (initializeColumns False [''a'', ''b''] (Some ''(a,b)'')) \<noteq> Some ''(a,b,_tidb_rowid)''"
  using initializeColumns_append[OF no_rowid_in_a_b, of "[''a'', ''b'']"] by simp

section \<open>Properties of \<open>saveStatusCheckpoint\<close>\<close>

text \<open>
  Claim C1.  For every call of \<open>saveStatusCheckpoint\<close>: when the error is nil, a
  \<open>StatusCheckpointMerger\<close> with \<open>statusIfSucceed\<close> is sent on the save channel and the
  error summaries are unchanged; when the error is a context cancellation, nothing
  changes (nothing is sent, nothing is marked invalid, no summary is recorded); for
  every other error the merger that is sent is the one marked invalid by \<open>SetInvalid\<close>,
  and the summary of the table becomes the error with \<open>statusIfSucceed\<close>.
\<close>

theorem saveStatusCheckpoint_cases:
  "(e = None \<longrightarrow>
      saveCpCh (saveStatusCheckpoint env tn engineID e st rc)
        = saveCpCh rc @ [\<lparr>tableName = tn, merger = StatusCheckpointMerger engineID st\<rparr>]
      \<and> summary (saveStatusCheckpoint env tn engineID e st rc) = summary rc)
   \<and> (\<forall>er. e = Some er \<and> IsContextCanceledError env er \<longrightarrow>
        saveStatusCheckpoint env tn engineID e st rc = rc)
   \<and> (\<forall>er. e = Some er \<and> \<not> IsContextCanceledError env er \<longrightarrow>
        saveCpCh (saveStatusCheckpoint env tn engineID e st rc)
          = saveCpCh rc @ [\<lparr>tableName = tn,
                             merger = SetInvalid env (StatusCheckpointMerger engineID st)\<rparr>]
        \<and> summary (saveStatusCheckpoint env tn engineID e st rc)
          = (summary rc)(tn \<mapsto> \<lparr>status = st, err = er\<rparr>))"
  by (auto simp: saveStatusCheckpoint_def send_def called_def record_summary_def)

theorem saveStatusCheckpoint_cases_witness:
  "saveCpCh (saveStatusCheckpoint env0 ''t'' 2 None 60 rc0)
     = [\<lparr>tableName = ''t'', merger = StatusCheckpointMerger 2 60\<rparr>]
   \<and> summary (saveStatusCheckpoint env0 ''t'' 2 None 60 rc0) = Map.empty
   \<and> IsContextCanceledError env0 CtxErr
   \<and> saveStatusCheckpoint env0 ''t'' 2 (Some CtxErr) 60 rc0 = rc0
   \<and> \<not> IsContextCanceledError env0 (External ''write failed'')
   \<and> saveCpCh (saveStatusCheckpoint env0 ''t'' 2 (Some (External ''write failed'')) 60 rc0)
       = [\<lparr>tableName = ''t'', merger = StatusCheckpointMerger 2 6\<rparr>]
   \<and> summary (saveStatusCheckpoint env0 ''t'' 2 (Some (External ''write failed'')) 60 rc0)
       = [''t'' \<mapsto> \<lparr>status = 60, err = External ''write failed''\<rparr>]"
proof -
  have c: "IsContextCanceledError env0 CtxErr"
    and n: "\<not> IsContextCanceledError env0 (External ''write failed'')"
    and i: "SetInvalid env0 (StatusCheckpointMerger 2 60) = StatusCheckpointMerger 2 6"
    and r: "saveCpCh rc0 = []" "summary rc0 = Map.empty"
    by (simp_all add: env0_def rc0_def)
  from saveStatusCheckpoint_cases[where e = None and env = env0 and tn = "''t''"
        and engineID = 2 and st = 60 and rc = rc0]
    saveStatusCheckpoint_cases[where e = "Some CtxErr" and env = env0 and tn = "''t''"
        and engineID = 2 and st = 60 and rc = rc0]
    saveStatusCheckpoint_cases[where e = "Some (External ''write failed'')" and env = env0
        and tn = "''t''" and engineID = 2 and st = 60 and rc = rc0]
    c n i r
  show ?thesis by simp
qed

section \<open>Properties of step 1 of \<open>restoreTable\<close>\<close>

lemma foldl_max_ge: "(x::int) \<le> foldl (\<lambda>m c. max m (f c)) x xs"
proof (induction xs arbitrary: x)
  case Nil
  then show ?case by simp
next
  case (Cons a xs)
  have "x \<le> max x (f a)" by simp
  also have "\<dots> \<le> foldl (\<lambda>m c. max m (f c)) (max x (f a)) xs" by (rule Cons.IH)
  finally show ?case by simp
qed

lemma foldl_max_mem: "y \<in> set xs \<Longrightarrow> f y \<le> foldl (\<lambda>m c. max m (f c)) (x::int) xs"
proof (induction xs arbitrary: x)
  case Nil
  then show ?case by simp
next
  case (Cons a xs)
  show ?case
  proof (cases "y = a")
    case True
    have "f a \<le> max x (f a)" by simp
    also have "\<dots> \<le> foldl (\<lambda>m c. max m (f c)) (max x (f a)) xs" by (rule foldl_max_ge)
    finally show ?thesis using True by simp
  next
    case False
    with Cons.prems have "y \<in> set xs" by simp
    from Cons.IH[OF this] show ?thesis by simp
  qed
qed

lemma rebaseOverChunks_ge: "base \<le> rebaseOverChunks base engines"
  unfolding rebaseOverChunks_def
proof (induction engines arbitrary: base)
  case Nil
  then show ?case by simp
next
  case (Cons a engines)
  have "base \<le> foldl (\<lambda>m c. max m (RowIDMax (Chunk c))) base (Chunks a)"
    by (rule foldl_max_ge)
  also have "\<dots> \<le> foldl (\<lambda>m engine. foldl (\<lambda>m c. max m (RowIDMax (Chunk c))) m (Chunks engine))
      (foldl (\<lambda>m c. max m (RowIDMax (Chunk c))) base (Chunks a)) engines"
    by (rule Cons.IH)
  finally show ?case by simp
qed

lemma rebaseOverChunks_mem:
  "engine \<in> set engines \<Longrightarrow> c \<in> set (Chunks engine) \<Longrightarrow>
   RowIDMax (Chunk c) \<le> rebaseOverChunks base engines"
proof (induction engines arbitrary: base)
  case Nil
  then show ?case by simp
next
  case (Cons a engines)
  let ?b1 = "foldl (\<lambda>m c. max m (RowIDMax (Chunk c))) base (Chunks a)"
  have unf: "rebaseOverChunks base (a # engines) = rebaseOverChunks ?b1 engines"
    by (simp add: rebaseOverChunks_def)
  show ?case
  proof (cases "engine = a")
    case True
    with Cons.prems have "RowIDMax (Chunk c) \<le> ?b1"
      using foldl_max_mem[of c "Chunks a" "\<lambda>c. RowIDMax (Chunk c)" base] by simp
    also have "\<dots> \<le> rebaseOverChunks ?b1 engines" by (rule rebaseOverChunks_ge)
    finally show ?thesis unfolding unf .
  next
    case False
    with Cons.prems have "engine \<in> set engines" by simp
    from Cons.IH[OF this Cons.prems(2)] show ?thesis unfolding unf .
  qed
qed

text \<open>The inner loop of \<open>populateChunks\<close> ends with the engine ID an index of the list.\<close>

lemma growEngines_length: "eid < int (length (growEngines eid loaded engines))"
proof (induction eid loaded engines rule: growEngines.induct)
  case (1 eid loaded engines)
  then show ?case
    by (subst growEngines.simps) auto
qed

lemma restoreTable_step1_example: "restoreTable_step1 env0 t0 cpFresh rc0 = (Inr cpLoaded, rcLoaded)"
  by (simp add: restoreTable_step1_def populateChunks_def env0_def statuses0_def t0_def cpFresh_def
      rc0_def region0_def called_def send_def growEngines.simps rebaseOverChunks_def Let_def
      cpLoaded_def rcLoaded_def enginesNew_def)

text \<open>
  Claim C3.  For every table whose chunks are freshly populated (no engines in the
  checkpoint and a status below \<open>AllWritten\<close>), when step 1 of \<open>restoreTable\<close> hands over to
  step 2, so before any chunk is encoded: \<open>AllocBase\<close> is at least the table's
  \<open>AutoIncID\<close> (and its own former value) and at least the \<open>RowIDMax\<close> of every chunk; the
  last call made is the rebase of the row-ID allocator to this value; and a
  \<open>RebaseCheckpointMerger\<close> that carries it has been sent on the save channel.
\<close>

theorem restoreTable_step1_allocBase:
  assumes "Engines cp = []" "Status cp < CheckpointStatusAllWritten (statuses env)"
    and "restoreTable_step1 env t cp rc = (Inr cp', rc')"
  shows "max (AllocBase cp) (t_AutoIncID t) \<le> AllocBase cp'
       \<and> (\<forall>engine \<in> set (Engines cp'). \<forall>c \<in> set (Chunks engine).
             RowIDMax (Chunk c) \<le> AllocBase cp')
       \<and> AllocBase cp' = rebaseOverChunks (max (AllocBase cp) (t_AutoIncID t)) (Engines cp')
       \<and> last (calls rc') = AllocRebase (t_tableID t) (AllocBase cp') False
       \<and> saveCpCh rc' = saveCpCh rc @ [\<lparr>tableName = t_tableName t,
                                        merger = RebaseCheckpointMerger (AllocBase cp')\<rparr>]"
proof -
  from assms obtain cp1 rc1 where
    pop: "populateChunks env cp rc = (Inr cp1, rc1)"
    and cp': "cp' = cp1\<lparr>AllocBase := rebaseOverChunks (max (AllocBase cp1) (t_AutoIncID t)) (Engines cp1)\<rparr>"
    and rc': "rc' = send \<lparr>tableName = t_tableName t, merger = RebaseCheckpointMerger (AllocBase cp')\<rparr>
         (called (AllocRebase (t_tableID t) (AllocBase cp') False)
           (called (InsertEngineCheckpoints (t_tableName t) (Engines cp1)) rc1))"
    by (auto simp: restoreTable_step1_def Let_def split: prod.splits sum.splits option.splits)
  from pop have ab: "AllocBase cp1 = AllocBase cp" and sc: "saveCpCh rc1 = saveCpCh rc"
    by (auto simp: populateChunks_def Let_def called_def split: sum.splits)
  have a: "AllocBase cp' = rebaseOverChunks (max (AllocBase cp) (t_AutoIncID t)) (Engines cp')"
    using cp' ab by simp
  have 1: "max (AllocBase cp) (t_AutoIncID t) \<le> AllocBase cp'"
    unfolding a by (rule rebaseOverChunks_ge)
  have 2: "\<forall>engine \<in> set (Engines cp'). \<forall>c \<in> set (Chunks engine). RowIDMax (Chunk c) \<le> AllocBase cp'"
    using rebaseOverChunks_mem a by metis
  have 3: "last (calls rc') = AllocRebase (t_tableID t) (AllocBase cp') False"
    unfolding rc' by (simp add: send_def called_def)
  have 4: "saveCpCh rc' = saveCpCh rc @ [\<lparr>tableName = t_tableName t,
                                        merger = RebaseCheckpointMerger (AllocBase cp')\<rparr>]"
    unfolding rc' using sc by (simp add: send_def called_def)
  from 1 2 a 3 4 show ?thesis by blast
qed

theorem restoreTable_step1_allocBase_witness:
  "Engines cpFresh = [] \<and> Status cpFresh < CheckpointStatusAllWritten (statuses env0)
   \<and> restoreTable_step1 env0 t0 cpFresh rc0 = (Inr cpLoaded, rcLoaded)
   \<and> AllocBase cpLoaded = 25
   \<and> max (AllocBase cpFresh) (t_AutoIncID t0) \<le> AllocBase cpLoaded
   \<and> list_all (\<lambda>engine. list_all (\<lambda>c. RowIDMax (Chunk c) \<le> AllocBase cpLoaded) (Chunks engine))
        (Engines cpLoaded)
   \<and> last (calls rcLoaded) = AllocRebase 5 25 False
   \<and> saveCpCh rcLoaded = [\<lparr>tableName = ''`db`.`t`'', merger = RebaseCheckpointMerger 25\<rparr>]"
proof -
  have h: "Engines cpFresh = []" "Status cpFresh < CheckpointStatusAllWritten (statuses env0)"
    by (simp_all add: cpFresh_def env0_def statuses0_def)
  have v: "AllocBase cpLoaded = 25" "t_tableID t0 = 5" "t_tableName t0 = ''`db`.`t`''"
    "saveCpCh rc0 = []"
    by (simp_all add: cpLoaded_def t0_def rc0_def)
  from restoreTable_step1_allocBase[OF h restoreTable_step1_example] h v
    restoreTable_step1_example
  show ?thesis unfolding list_all_iff by simp
qed

section \<open>Properties of resuming an engine\<close>

lemma startedTasks_append: "startedTasks (xs @ ys) = startedTasks xs @ startedTasks ys"
  by (induction xs rule: startedTasks.induct) simp_all

lemma saveStatusCheckpoint_calls:
  "\<exists>new. calls (saveStatusCheckpoint env tn engineID e st rc) = calls rc @ new
         \<and> startedTasks new = []"
  by (auto simp: saveStatusCheckpoint_def send_def called_def record_summary_def Let_def
      split: option.splits)

lemma newChunkRestore_Inr:
  assumes "newChunkRestore env i ccp rc = (Inr cr, rc1)"
  shows "calls rc1 = calls rc @ [OsOpen (Path (ChunkKey ccp)),
                                 FileSeek (Path (ChunkKey ccp)) (Offset (Chunk ccp))]
       \<and> index cr = i \<and> chunk cr = ccp
       \<and> pos (parser cr) = Offset (Chunk ccp) \<and> lastRowID (parser cr) = PrevRowIDMax (Chunk ccp)
       \<and> readerPos (parser cr) = readerAfterSeek env ccp"
  using assms
  by (auto simp: newChunkRestore_def Let_def called_def SetPos_def NewChunkParser_def
      readerAfterSeek_def split: option.splits)

lemma newChunkRestore_Inl:
  assumes "newChunkRestore env i ccp rc = (Inl e, rc1)"
  shows "calls rc1 = calls rc @ [OsOpen (Path (ChunkKey ccp))]"
  using assms
  by (auto simp: newChunkRestore_def Let_def called_def split: option.splits)

text \<open>
  Every task that the chunk loop starts, from index \<open>i\<close> on, is the task of an unfinished
  chunk of the list, with the parser set to that chunk's saved position and the file
  where the seek has left it.
\<close>

lemma chunkLoop_tasks:
  assumes "chunkLoop env engineID engine i cs rc = (r, rc')"
  shows "\<exists>new. calls rc' = calls rc @ new
       \<and> (\<forall>cr \<in> set (startedTasks new). i \<le> index cr \<and> index cr < i + length cs
             \<and> chunk cr = cs ! (index cr - i)
             \<and> Offset (Chunk (chunk cr)) < EndOffset (Chunk (chunk cr))
             \<and> pos (parser cr) = Offset (Chunk (chunk cr))
             \<and> lastRowID (parser cr) = PrevRowIDMax (Chunk (chunk cr))
             \<and> readerPos (parser cr) = readerAfterSeek env (chunk cr))"
  using assms
proof (induction cs arbitrary: i rc)
  case Nil
  then show ?case by simp
next
  case (Cons ccp rest)
  let ?P = "\<lambda>lo n xs cr. lo \<le> index cr \<and> index cr < lo + n
             \<and> chunk cr = xs ! (index cr - lo)
             \<and> Offset (Chunk (chunk cr)) < EndOffset (Chunk (chunk cr))
             \<and> pos (parser cr) = Offset (Chunk (chunk cr))
             \<and> lastRowID (parser cr) = PrevRowIDMax (Chunk (chunk cr))
             \<and> readerPos (parser cr) = readerAfterSeek env (chunk cr)"
  have shift: "?P i (length (ccp # rest)) (ccp # rest) cr" if "?P (Suc i) (length rest) rest cr" for cr
    using that by (auto simp: Suc_diff_le)
  show ?case
  proof (cases "Offset (Chunk ccp) \<ge> EndOffset (Chunk ccp)")
    case True
    with Cons.prems have "chunkLoop env engineID engine (Suc i) rest rc = (r, rc')" by simp
    from Cons.IH[OF this] obtain new where n: "calls rc' = calls rc @ new"
      "\<forall>cr \<in> set (startedTasks new). ?P (Suc i) (length rest) rest cr" by blast
    from n(2) shift have "\<forall>cr \<in> set (startedTasks new). ?P i (length (ccp # rest)) (ccp # rest) cr"
      by blast
    with n(1) show ?thesis by blast
  next
    case lt: False
    show ?thesis
    proof (cases "ctxDoneAt env i \<or> chunkErrAt env i")
      case True
      with lt Cons.prems have "rc' = rc" by (auto split: if_splits)
      then show ?thesis by simp
    next
      case False
      obtain x rc1 where ncr: "newChunkRestore env i ccp rc = (x, rc1)"
        by (cases "newChunkRestore env i ccp rc")
      show ?thesis
      proof (cases x)
        case (Inl e)
        with lt False Cons.prems ncr have "rc' = rc1" by simp
        with newChunkRestore_Inl[of env i ccp rc e rc1] ncr Inl show ?thesis by simp
      next
        case (Inr cr0)
        with lt False Cons.prems ncr
        have rec: "chunkLoop env engineID engine (Suc i) rest
               (called (GoChunkRestore cr0 engineID engine) rc1) = (r, rc')" by simp
        from newChunkRestore_Inr[of env i ccp rc cr0 rc1] ncr Inr
        have f: "calls rc1 = calls rc @ [OsOpen (Path (ChunkKey ccp)),
                                         FileSeek (Path (ChunkKey ccp)) (Offset (Chunk ccp))]"
          "index cr0 = i" "chunk cr0 = ccp"
          "pos (parser cr0) = Offset (Chunk ccp)" "lastRowID (parser cr0) = PrevRowIDMax (Chunk ccp)"
          "readerPos (parser cr0) = readerAfterSeek env ccp" by simp_all
        from Cons.IH[OF rec] obtain new where
          n: "calls rc' = calls (called (GoChunkRestore cr0 engineID engine) rc1) @ new"
          "\<forall>cr \<in> set (startedTasks new). ?P (Suc i) (length rest) rest cr" by blast
        let ?new = "[OsOpen (Path (ChunkKey ccp)),
                     FileSeek (Path (ChunkKey ccp)) (Offset (Chunk ccp)),
                     GoChunkRestore cr0 engineID engine] @ new"
        have c: "calls rc' = calls rc @ ?new"
          using n(1) f(1) by (simp add: called_def)
        have st: "startedTasks ?new = cr0 # startedTasks new" by simp
        have p0: "?P i (length (ccp # rest)) (ccp # rest) cr0"
          using f lt by simp
        from n(2) shift have "\<forall>cr \<in> set (startedTasks new). ?P i (length (ccp # rest)) (ccp # rest) cr"
          by blast
        with p0 have "\<forall>cr \<in> set (startedTasks ?new). ?P i (length (ccp # rest)) (ccp # rest) cr"
          unfolding st by (metis set_ConsD)
        with c show ?thesis by blast
      qed
    qed
  qed
qed

lemma restoreEngine_tasks:
  "\<exists>new. calls (snd (restoreEngine env tn engineID cp rc)) = calls rc @ new
       \<and> (\<forall>cr \<in> set (startedTasks new).
             resumedAt (Chunks cp) cr \<and> readerPos (parser cr) = readerAfterSeek env (chunk cr))"
proof (cases "EngineStatus cp \<ge> CheckpointStatusClosed (statuses env)")
  case True
  then show ?thesis by (simp add: restoreEngine_def called_def)
next
  case notClosed: False
  show ?thesis
  proof (cases "openEngineRes env tn engineID")
    case (Inl e)
    with notClosed show ?thesis by (simp add: restoreEngine_def called_def Let_def)
  next
    case (Inr engine)
    let ?rc1 = "called (OpenEngine tn engineID) rc"
    let ?Q = "\<lambda>cr. resumedAt (Chunks cp) cr \<and> readerPos (parser cr) = readerAfterSeek env (chunk cr)"
    obtain r rc2 where cl: "chunkLoop env engineID engine 0 (Chunks cp) ?rc1 = (r, rc2)"
      by (cases "chunkLoop env engineID engine 0 (Chunks cp) ?rc1")
    from chunkLoop_tasks[OF cl] obtain new where
      n: "calls rc2 = calls ?rc1 @ new" "\<forall>cr \<in> set (startedTasks new). ?Q cr"
      unfolding resumedAt_def by auto
    have c2: "calls rc2 = calls rc @ (OpenEngine tn engineID # new)"
      using n(1) by (simp add: called_def)
    have s2: "startedTasks (OpenEngine tn engineID # new) = startedTasks new" by simp
    show ?thesis
    proof (cases r)
      case (Some e)
      with notClosed Inr cl have "snd (restoreEngine env tn engineID cp rc) = rc2"
        by (simp add: restoreEngine_def Let_def)
      with c2 s2 n(2) show ?thesis by metis
    next
      case None
      let ?rc3 = "saveStatusCheckpoint env tn engineID (chunkErrFinal env)
                               (CheckpointStatusAllWritten (statuses env)) rc2"
      from saveStatusCheckpoint_calls[of env tn engineID "chunkErrFinal env" _ rc2]
      obtain new3 where n3: "calls ?rc3 = calls rc2 @ new3" "startedTasks new3 = []" by blast
      show ?thesis
      proof (cases "chunkErrFinal env")
        case (Some e)
        with notClosed Inr cl None have "snd (restoreEngine env tn engineID cp rc) = ?rc3"
          by (simp add: restoreEngine_def Let_def)
        moreover have "calls ?rc3 = calls rc @ (OpenEngine tn engineID # new @ new3)"
          using n3(1) c2 by simp
        moreover have "startedTasks (OpenEngine tn engineID # new @ new3) = startedTasks new"
          using n3(2) by (simp add: startedTasks_append)
        ultimately show ?thesis using n(2) by metis
      next
        case noErr: None
        let ?rc4 = "called (EngineClose engine) ?rc3"
        let ?rc5 = "saveStatusCheckpoint env tn engineID
                      (case engineCloseRes env engine of Inl e \<Rightarrow> Some e | Inr _ \<Rightarrow> None)
                      (CheckpointStatusClosed (statuses env)) ?rc4"
        from saveStatusCheckpoint_calls[of env tn engineID _ _ ?rc4]
        obtain new5 where n5: "calls ?rc5 = calls ?rc4 @ new5" "startedTasks new5 = []" by blast
        from notClosed Inr cl None noErr have "snd (restoreEngine env tn engineID cp rc) = ?rc5"
          by (simp add: restoreEngine_def Let_def)
        moreover have "calls ?rc5
            = calls rc @ (OpenEngine tn engineID # new @ new3 @ EngineClose engine # new5)"
          using n5(1) n3(1) c2 by (simp add: called_def)
        moreover have "startedTasks (OpenEngine tn engineID # new @ new3 @ EngineClose engine # new5)
            = startedTasks new"
          using n3(2) n5(2) by (simp add: startedTasks_append)
        ultimately show ?thesis using n(2) by metis
      qed
    qed
  qed
qed

lemma restoreEngine_example:
  "startedTasks (newCalls rc0 (snd (restoreEngine env0 ''t'' 0 (engine0 30) rc0))) = [taskHalf]"
  by (simp add: restoreEngine_def chunkLoop.simps newChunkRestore_def saveStatusCheckpoint_def
      env0_def statuses0_def rc0_def engine0_def chunkDone_def chunkHalf_def taskHalf_def
      called_def send_def newCalls_def NewChunkParser_def SetPos_def Let_def)

text \<open>
  What holds of resuming for every checkpoint and every answer of the collaborators.
  For an engine whose status is at least \<open>Closed\<close>, \<open>restoreEngine\<close> makes one call,
  \<open>UnsafeCloseEngine\<close>, and returns what that call returns, so it opens no engine and
  starts no chunk task; for an engine whose status is at least \<open>Imported\<close>,
  \<open>importEngine\<close> returns nil and makes no call; every chunk task that \<open>restoreEngine\<close>
  starts is the task of a chunk with \<open>Offset < EndOffset\<close>, its parser is set to the
  chunk's saved \<open>Offset\<close> with row-ID position \<open>PrevRowIDMax\<close>, and its file stands at that
  offset when the seek has succeeded and at the start when the seek has failed; and no
  task is started for a chunk with \<open>Offset \<ge> EndOffset\<close>.
\<close>

lemma resume_from_checkpoint:
  "(CheckpointStatusClosed (statuses env) \<le> EngineStatus cp \<longrightarrow>
      restoreEngine env tn engineID cp rc
        = (unsafeCloseEngineRes env tn engineID,
           rc\<lparr>calls := calls rc @ [UnsafeCloseEngine tn engineID]\<rparr>))
   \<and> (CheckpointStatusImported (statuses env) \<le> EngineStatus cp \<longrightarrow>
        importEngine env tn closedEngine engineID cp rc = (None, rc))
   \<and> (\<forall>cr \<in> set (startedTasks (newCalls rc (snd (restoreEngine env tn engineID cp rc)))).
        resumedAt (Chunks cp) cr \<and> readerPos (parser cr) = readerAfterSeek env (chunk cr))
   \<and> (\<forall>i < length (Chunks cp).
        EndOffset (Chunk (Chunks cp ! i)) \<le> Offset (Chunk (Chunks cp ! i)) \<longrightarrow>
        i \<notin> index ` set (startedTasks (newCalls rc (snd (restoreEngine env tn engineID cp rc)))))"
proof -
  have a: "restoreEngine env tn engineID cp rc
        = (unsafeCloseEngineRes env tn engineID,
           rc\<lparr>calls := calls rc @ [UnsafeCloseEngine tn engineID]\<rparr>)"
    if "CheckpointStatusClosed (statuses env) \<le> EngineStatus cp"
    using that by (simp add: restoreEngine_def called_def)
  have b: "importEngine env tn closedEngine engineID cp rc = (None, rc)"
    if "CheckpointStatusImported (statuses env) \<le> EngineStatus cp"
    using that by (simp add: importEngine_def)
  from restoreEngine_tasks[of env tn engineID cp rc] obtain new where
    n: "calls (snd (restoreEngine env tn engineID cp rc)) = calls rc @ new"
       "\<forall>cr \<in> set (startedTasks new).
          resumedAt (Chunks cp) cr \<and> readerPos (parser cr) = readerAfterSeek env (chunk cr)"
    by blast
  from n(1) have nc: "newCalls rc (snd (restoreEngine env tn engineID cp rc)) = new"
    by (simp add: newCalls_def)
  have c: "\<forall>cr \<in> set (startedTasks (newCalls rc (snd (restoreEngine env tn engineID cp rc)))).
        resumedAt (Chunks cp) cr \<and> readerPos (parser cr) = readerAfterSeek env (chunk cr)"
    unfolding nc by (rule n(2))
  have d: "i \<notin> index ` set (startedTasks (newCalls rc (snd (restoreEngine env tn engineID cp rc))))"
    if "EndOffset (Chunk (Chunks cp ! i)) \<le> Offset (Chunk (Chunks cp ! i))" for i
  proof
    assume "i \<in> index ` set (startedTasks (newCalls rc (snd (restoreEngine env tn engineID cp rc))))"
    then obtain cr where "cr \<in> set (startedTasks new)" "index cr = i" unfolding nc by auto
    with n(2) have "Offset (Chunk (Chunks cp ! i)) < EndOffset (Chunk (Chunks cp ! i))"
      unfolding resumedAt_def by auto
    with that show False by simp
  qed
  from a b c d show ?thesis by blast
qed

lemma resume_from_checkpoint_example:
  "CheckpointStatusClosed (statuses env0) \<le> EngineStatus (engine0 90)
   \<and> restoreEngine env0 ''t'' 0 (engine0 90) rc0
       = (Inr 7, rc0\<lparr>calls := [UnsafeCloseEngine ''t'' 0]\<rparr>)
   \<and> CheckpointStatusImported (statuses env0) \<le> EngineStatus (engine0 120)
   \<and> importEngine env0 ''t'' 7 0 (engine0 120) rc0 = (None, rc0)
   \<and> startedTasks (newCalls rc0 (snd (restoreEngine env0 ''t'' 0 (engine0 30) rc0))) = [taskHalf]
   \<and> resumedAt (Chunks (engine0 30)) taskHalf
   \<and> readerPos (parser taskHalf) = Offset (Chunk (chunk taskHalf))
   \<and> EndOffset (Chunk (Chunks (engine0 30) ! 0)) \<le> Offset (Chunk (Chunks (engine0 30) ! 0))
   \<and> 0 \<notin> index ` set (startedTasks (newCalls rc0 (snd (restoreEngine env0 ''t'' 0 (engine0 30) rc0))))"
proof -
  have h: "CheckpointStatusClosed (statuses env0) \<le> EngineStatus (engine0 90)"
    "CheckpointStatusImported (statuses env0) \<le> EngineStatus (engine0 120)"
    "EndOffset (Chunk (Chunks (engine0 30) ! 0)) \<le> Offset (Chunk (Chunks (engine0 30) ! 0))"
    "0 < length (Chunks (engine0 30))"
    by (simp_all add: env0_def statuses0_def engine0_def chunkDone_def)
  have v: "unsafeCloseEngineRes env0 ''t'' 0 = Inr 7" "calls rc0 = []"
    "readerAfterSeek env0 (chunk taskHalf) = Offset (Chunk (chunk taskHalf))"
    by (simp_all add: env0_def rc0_def readerAfterSeek_def taskHalf_def chunkHalf_def)
  from resume_from_checkpoint[where env = env0 and cp = "engine0 90" and tn = "''t''"
        and engineID = 0 and rc = rc0 and closedEngine = 7]
    resume_from_checkpoint[where env = env0 and cp = "engine0 120" and tn = "''t''"
        and engineID = 0 and rc = rc0 and closedEngine = 7]
    resume_from_checkpoint[where env = env0 and cp = "engine0 30" and tn = "''t''"
        and engineID = 0 and rc = rc0 and closedEngine = 7]
    h v restoreEngine_example
  show ?thesis by simp
qed



section \<open>Properties of \<open>DoChecksum\<close> and \<open>compareChecksum\<close>\<close>

lemma increaseGCLifeTime_Inr:
  assumes "increaseGCLifeTime PD db = (Inr ori, db1)"
  shows "ori = tikv_gc_life_time db \<and> sqlFail db1 = sqlFail db
    \<and> ((ori \<noteq> [] \<and> (\<exists>d. PD ori = Inr d \<and> defaultGCLifeTime \<le> d)) \<longrightarrow>
          sqlLog db1 = sqlLog db @ [ObtainGCLifeTimeCall] \<and> tikv_gc_life_time db1 = ori)
    \<and> (sqlLog db1 \<noteq> sqlLog db @ [ObtainGCLifeTimeCall] \<longrightarrow>
          (ori = [] \<or> (\<exists>d. PD ori = Inr d \<and> d < defaultGCLifeTime))
          \<and> sqlLog db1 = sqlLog db @ [ObtainGCLifeTimeCall, UpdateGCLifeTimeCall defaultGCLifeTime_String]
          \<and> tikv_gc_life_time db1 = defaultGCLifeTime_String)"
  using assms
  by (auto simp: increaseGCLifeTime_def ObtainGCLifeTime_def UpdateGCLifeTime_def Let_def
      split: option.splits sum.splits if_splits prod.splits)

lemma increaseGCLifeTime_example:
  "increaseGCLifeTime ParseDuration0 (db0 ''10m0s'' (failAt 2))
     = (Inr ''10m0s'', \<lparr>tikv_gc_life_time = ''100h0m0s'',
          sqlLog = [ObtainGCLifeTimeCall, UpdateGCLifeTimeCall ''100h0m0s''],
          sqlFail = failAt 2, checksumRow = row0\<rparr>)"
  by (simp add: increaseGCLifeTime_def ObtainGCLifeTime_def UpdateGCLifeTime_def
      ParseDuration0_def db0_def failAt_def defaultGCLifeTime_def defaultGCLifeTime_String_def
      Let_def)

lemma increaseGCLifeTime_Inl:
  assumes "increaseGCLifeTime PD db = (Inl e, db1)"
  shows "DoChecksum PD table db = (Inl e, db1)
       \<and> (sqlLog db1 = sqlLog db @ [ObtainGCLifeTimeCall]
            \<or> sqlLog db1 = sqlLog db @ [ObtainGCLifeTimeCall,
                                         UpdateGCLifeTimeCall defaultGCLifeTime_String])
       \<and> tikv_gc_life_time db1 = tikv_gc_life_time db"
  using assms
  by (auto simp: DoChecksum_def increaseGCLifeTime_def ObtainGCLifeTime_def UpdateGCLifeTime_def
      Let_def split: option.splits sum.splits if_splits prod.splits)

lemma DoChecksum_after_increase:
  assumes "increaseGCLifeTime PD db = (Inr ori, db1)"
  shows "fst (DoChecksum PD table db) = fst (QueryChecksum table db1)
    \<and> sqlLog (snd (DoChecksum PD table db))
        = sqlLog db1 @ [AdminChecksumCall table, UpdateGCLifeTimeCall ori]
    \<and> (sqlFail db (Suc (length (sqlLog db1))) = None \<longrightarrow>
          tikv_gc_life_time (snd (DoChecksum PD table db)) = ori)
    \<and> (sqlFail db (Suc (length (sqlLog db1))) \<noteq> None \<longrightarrow>
          tikv_gc_life_time (snd (DoChecksum PD table db)) = tikv_gc_life_time db1)"
proof -
  have f: "sqlFail db1 = sqlFail db"
    using increaseGCLifeTime_Inr[OF assms] by simp
  have d: "DoChecksum PD table db
      = (fst (QueryChecksum table db1), snd (UpdateGCLifeTime ori (snd (QueryChecksum table db1))))"
    using assms by (simp add: DoChecksum_def split: prod.splits)
  have l: "sqlLog (snd (DoChecksum PD table db))
        = sqlLog db1 @ [AdminChecksumCall table, UpdateGCLifeTimeCall ori]"
    unfolding d by (simp add: QueryChecksum_def UpdateGCLifeTime_def Let_def split: option.splits)
  have v: "tikv_gc_life_time (snd (DoChecksum PD table db)) = ori"
    if "sqlFail db (Suc (length (sqlLog db1))) = None"
    unfolding d using that f
    by (simp add: QueryChecksum_def UpdateGCLifeTime_def Let_def split: option.splits)
  have w: "tikv_gc_life_time (snd (DoChecksum PD table db)) = tikv_gc_life_time db1"
    if "sqlFail db (Suc (length (sqlLog db1))) \<noteq> None"
    unfolding d using that f
    by (auto simp: QueryChecksum_def UpdateGCLifeTime_def Let_def split: option.splits)
  have q: "fst (DoChecksum PD table db) = fst (QueryChecksum table db1)"
    unfolding d by simp
  from q l v w show ?thesis by blast
qed

lemma increaseGCLifeTime_example_long:
  "increaseGCLifeTime ParseDuration0 (db0 ''200h0m0s'' (failAt 9))
     = (Inr ''200h0m0s'', \<lparr>tikv_gc_life_time = ''200h0m0s'', sqlLog = [ObtainGCLifeTimeCall],
          sqlFail = failAt 9, checksumRow = row0\<rparr>)"
  by (simp add: increaseGCLifeTime_def ObtainGCLifeTime_def UpdateGCLifeTime_def
      ParseDuration0_def db0_def failAt_def defaultGCLifeTime_def defaultGCLifeTime_String_def
      Let_def)

lemma increaseGCLifeTime_example_invalid:
  "increaseGCLifeTime ParseDuration0 (db0 ''abc'' (failAt 9))
     = (Inl (External ''invalid duration''), \<lparr>tikv_gc_life_time = ''abc'',
          sqlLog = [ObtainGCLifeTimeCall], sqlFail = failAt 9, checksumRow = row0\<rparr>)"
  by (simp add: increaseGCLifeTime_def ObtainGCLifeTime_def UpdateGCLifeTime_def
      ParseDuration0_def db0_def failAt_def defaultGCLifeTime_def defaultGCLifeTime_String_def
      Let_def)

lemma increaseGCLifeTime_example_cancelled:
  "increaseGCLifeTime ParseDuration0 (db0 ''10m0s'' (failFrom 2))
     = (Inr ''10m0s'', \<lparr>tikv_gc_life_time = ''100h0m0s'',
          sqlLog = [ObtainGCLifeTimeCall, UpdateGCLifeTimeCall ''100h0m0s''],
          sqlFail = failFrom 2, checksumRow = row0\<rparr>)"
  by (simp add: increaseGCLifeTime_def ObtainGCLifeTime_def UpdateGCLifeTime_def
      ParseDuration0_def db0_def failFrom_def defaultGCLifeTime_def defaultGCLifeTime_String_def
      Let_def)

text \<open>
  Claim C10, as amended.  Whenever \<open>increaseGCLifeTime\<close> returns without an error, with
  the original value \<open>ori\<close> of \<open>tikv_gc_life_time\<close>: if \<open>ori\<close> parses as a duration of at
  least 100 hours, no statement but the read has been issued and the variable is
  unchanged when the checksum query starts; a statement is issued before the query only
  when \<open>ori\<close> is empty or parses to less than 100 hours, and it sets the variable to
  \<open>100h0m0s\<close>; \<open>DoChecksum\<close> then issues the \<open>ADMIN CHECKSUM\<close> query, returns what the query
  returns, and, whether the query fails or not, its last statement is the one that
  writes \<open>ori\<close> back.  When that last statement succeeds, the variable holds \<open>ori\<close> again
  as \<open>DoChecksum\<close> returns; when it fails, the variable stays as it was when the query
  started, raised or unchanged.  Whenever \<open>increaseGCLifeTime\<close> returns an error,
  \<open>DoChecksum\<close> returns that error with nothing more issued, neither the query nor a
  write of the original value, and the variable is as it was before the call.
\<close>

theorem DoChecksum_gc_life_time:
  "(\<forall>ori db1. increaseGCLifeTime PD db = (Inr ori, db1) \<longrightarrow>
      ori = tikv_gc_life_time db
      \<and> ((ori \<noteq> [] \<and> (\<exists>d. PD ori = Inr d \<and> defaultGCLifeTime \<le> d)) \<longrightarrow>
            sqlLog db1 = sqlLog db @ [ObtainGCLifeTimeCall] \<and> tikv_gc_life_time db1 = ori)
      \<and> (sqlLog db1 \<noteq> sqlLog db @ [ObtainGCLifeTimeCall] \<longrightarrow>
            (ori = [] \<or> (\<exists>d. PD ori = Inr d \<and> d < defaultGCLifeTime))
            \<and> sqlLog db1 = sqlLog db @ [ObtainGCLifeTimeCall,
                                         UpdateGCLifeTimeCall defaultGCLifeTime_String]
            \<and> tikv_gc_life_time db1 = defaultGCLifeTime_String)
      \<and> fst (DoChecksum PD table db) = fst (QueryChecksum table db1)
      \<and> sqlLog (snd (DoChecksum PD table db))
          = sqlLog db1 @ [AdminChecksumCall table, UpdateGCLifeTimeCall ori]
      \<and> (sqlFail db (Suc (length (sqlLog db1))) = None \<longrightarrow>
            tikv_gc_life_time (snd (DoChecksum PD table db)) = ori)
      \<and> (sqlFail db (Suc (length (sqlLog db1))) \<noteq> None \<longrightarrow>
            tikv_gc_life_time (snd (DoChecksum PD table db)) = tikv_gc_life_time db1))
   \<and> (\<forall>e db1. increaseGCLifeTime PD db = (Inl e, db1) \<longrightarrow>
        DoChecksum PD table db = (Inl e, db1)
        \<and> (sqlLog db1 = sqlLog db @ [ObtainGCLifeTimeCall]
             \<or> sqlLog db1 = sqlLog db @ [ObtainGCLifeTimeCall,
                                          UpdateGCLifeTimeCall defaultGCLifeTime_String])
        \<and> tikv_gc_life_time db1 = tikv_gc_life_time db)"
proof (intro conjI allI impI)
  fix ori db1
  assume a: "increaseGCLifeTime PD db = (Inr ori, db1)"
  note inc = increaseGCLifeTime_Inr[OF a]
  note aft = DoChecksum_after_increase[OF a, of table]
  show "ori = tikv_gc_life_time db" using inc by blast
  show "fst (DoChecksum PD table db) = fst (QueryChecksum table db1)" using aft by blast
  show "sqlLog (snd (DoChecksum PD table db))
          = sqlLog db1 @ [AdminChecksumCall table, UpdateGCLifeTimeCall ori]" using aft by blast
  {
    assume "sqlFail db (Suc (length (sqlLog db1))) = None"
    with aft show "tikv_gc_life_time (snd (DoChecksum PD table db)) = ori" by blast
  }
  {
    assume "sqlFail db (Suc (length (sqlLog db1))) \<noteq> None"
    with aft show "tikv_gc_life_time (snd (DoChecksum PD table db)) = tikv_gc_life_time db1"
      by blast
  }
  {
    assume "ori \<noteq> [] \<and> (\<exists>d. PD ori = Inr d \<and> defaultGCLifeTime \<le> d)"
    with inc show "sqlLog db1 = sqlLog db @ [ObtainGCLifeTimeCall]"
      and "tikv_gc_life_time db1 = ori" by blast+
  }
  {
    assume "sqlLog db1 \<noteq> sqlLog db @ [ObtainGCLifeTimeCall]"
    with inc show "ori = [] \<or> (\<exists>d. PD ori = Inr d \<and> d < defaultGCLifeTime)"
      and "sqlLog db1 = sqlLog db @ [ObtainGCLifeTimeCall,
                                     UpdateGCLifeTimeCall defaultGCLifeTime_String]"
      and "tikv_gc_life_time db1 = defaultGCLifeTime_String" by blast+
  }
next
  fix e db1
  assume a: "increaseGCLifeTime PD db = (Inl e, db1)"
  note inl = increaseGCLifeTime_Inl[OF a, of table]
  show "DoChecksum PD table db = (Inl e, db1)" using inl by blast
  show "sqlLog db1 = sqlLog db @ [ObtainGCLifeTimeCall]
             \<or> sqlLog db1 = sqlLog db @ [ObtainGCLifeTimeCall,
                                          UpdateGCLifeTimeCall defaultGCLifeTime_String]"
    using inl by blast
  show "tikv_gc_life_time db1 = tikv_gc_life_time db" using inl by blast
qed

theorem DoChecksum_gc_life_time_witness:
  "increaseGCLifeTime ParseDuration0 (db0 ''10m0s'' (failAt 2))
     = (Inr ''10m0s'', \<lparr>tikv_gc_life_time = ''100h0m0s'',
          sqlLog = [ObtainGCLifeTimeCall, UpdateGCLifeTimeCall ''100h0m0s''],
          sqlFail = failAt 2, checksumRow = row0\<rparr>)
   \<and> fst (DoChecksum ParseDuration0 ''t'' (db0 ''10m0s'' (failAt 2)))
       = Inl (External ''statement failed'')
   \<and> sqlLog (snd (DoChecksum ParseDuration0 ''t'' (db0 ''10m0s'' (failAt 2))))
       = [ObtainGCLifeTimeCall, UpdateGCLifeTimeCall ''100h0m0s'', AdminChecksumCall ''t'',
          UpdateGCLifeTimeCall ''10m0s'']
   \<and> sqlFail (db0 ''10m0s'' (failAt 2)) 3 = None
   \<and> tikv_gc_life_time (snd (DoChecksum ParseDuration0 ''t'' (db0 ''10m0s'' (failAt 2))))
       = ''10m0s''
   \<and> fst (increaseGCLifeTime ParseDuration0 (db0 ''10m0s'' (failFrom 2))) = Inr ''10m0s''
   \<and> sqlFail (db0 ''10m0s'' (failFrom 2)) 3 = Some (External ''context canceled'')
   \<and> sqlLog (snd (DoChecksum ParseDuration0 ''t'' (db0 ''10m0s'' (failFrom 2))))
       = [ObtainGCLifeTimeCall, UpdateGCLifeTimeCall ''100h0m0s'', AdminChecksumCall ''t'',
          UpdateGCLifeTimeCall ''10m0s'']
   \<and> tikv_gc_life_time (snd (DoChecksum ParseDuration0 ''t'' (db0 ''10m0s'' (failFrom 2))))
       = ''100h0m0s''
   \<and> ParseDuration0 ''200h0m0s'' = Inr 720000000000000
   \<and> defaultGCLifeTime \<le> 720000000000000
   \<and> sqlLog (snd (increaseGCLifeTime ParseDuration0 (db0 ''200h0m0s'' (failAt 9))))
       = [ObtainGCLifeTimeCall]
   \<and> sqlLog (snd (DoChecksum ParseDuration0 ''t'' (db0 ''200h0m0s'' (failAt 9))))
       = [ObtainGCLifeTimeCall, AdminChecksumCall ''t'', UpdateGCLifeTimeCall ''200h0m0s'']
   \<and> fst (increaseGCLifeTime ParseDuration0 (db0 ''abc'' (failAt 9)))
       = Inl (External ''invalid duration'')
   \<and> fst (DoChecksum ParseDuration0 ''t'' (db0 ''abc'' (failAt 9)))
       = Inl (External ''invalid duration'')
   \<and> sqlLog (snd (DoChecksum ParseDuration0 ''t'' (db0 ''abc'' (failAt 9))))
       = [ObtainGCLifeTimeCall]"
proof -
  let ?db1 = "\<lparr>tikv_gc_life_time = ''100h0m0s'',
            sqlLog = [ObtainGCLifeTimeCall, UpdateGCLifeTimeCall ''100h0m0s''],
            sqlFail = failAt 2, checksumRow = row0\<rparr>"
  let ?db2 = "\<lparr>tikv_gc_life_time = ''200h0m0s'', sqlLog = [ObtainGCLifeTimeCall],
            sqlFail = failAt 9, checksumRow = row0\<rparr>"
  let ?db3 = "\<lparr>tikv_gc_life_time = ''abc'', sqlLog = [ObtainGCLifeTimeCall],
            sqlFail = failAt 9, checksumRow = row0\<rparr>"
  let ?db4 = "\<lparr>tikv_gc_life_time = ''100h0m0s'',
            sqlLog = [ObtainGCLifeTimeCall, UpdateGCLifeTimeCall ''100h0m0s''],
            sqlFail = failFrom 2, checksumRow = row0\<rparr>"
  from DoChecksum_gc_life_time[of ParseDuration0 "db0 ''10m0s'' (failAt 2)" "''t''"]
    increaseGCLifeTime_example
  have a: "fst (DoChecksum ParseDuration0 ''t'' (db0 ''10m0s'' (failAt 2)))
        = fst (QueryChecksum ''t'' ?db1)
      \<and> sqlLog (snd (DoChecksum ParseDuration0 ''t'' (db0 ''10m0s'' (failAt 2))))
        = sqlLog ?db1 @ [AdminChecksumCall ''t'', UpdateGCLifeTimeCall ''10m0s'']
      \<and> (sqlFail (db0 ''10m0s'' (failAt 2)) (Suc (length (sqlLog ?db1))) = None \<longrightarrow>
          tikv_gc_life_time (snd (DoChecksum ParseDuration0 ''t'' (db0 ''10m0s'' (failAt 2))))
            = ''10m0s'')"
    by blast
  from DoChecksum_gc_life_time[of ParseDuration0 "db0 ''10m0s'' (failFrom 2)" "''t''"]
    increaseGCLifeTime_example_cancelled
  have d: "sqlLog (snd (DoChecksum ParseDuration0 ''t'' (db0 ''10m0s'' (failFrom 2))))
        = sqlLog ?db4 @ [AdminChecksumCall ''t'', UpdateGCLifeTimeCall ''10m0s'']
      \<and> (sqlFail (db0 ''10m0s'' (failFrom 2)) (Suc (length (sqlLog ?db4))) \<noteq> None \<longrightarrow>
          tikv_gc_life_time (snd (DoChecksum ParseDuration0 ''t'' (db0 ''10m0s'' (failFrom 2))))
            = tikv_gc_life_time ?db4)"
    by blast
  from DoChecksum_gc_life_time[of ParseDuration0 "db0 ''200h0m0s'' (failAt 9)" "''t''"]
    increaseGCLifeTime_example_long
  have b: "sqlLog (snd (DoChecksum ParseDuration0 ''t'' (db0 ''200h0m0s'' (failAt 9))))
        = sqlLog ?db2 @ [AdminChecksumCall ''t'', UpdateGCLifeTimeCall ''200h0m0s'']"
    by blast
  from DoChecksum_gc_life_time[of ParseDuration0 "db0 ''abc'' (failAt 9)" "''t''"]
    increaseGCLifeTime_example_invalid
  have c: "DoChecksum ParseDuration0 ''t'' (db0 ''abc'' (failAt 9))
        = (Inl (External ''invalid duration''), ?db3)"
    by blast
  have p: "ParseDuration0 ''200h0m0s'' = Inr 720000000000000"
    "defaultGCLifeTime \<le> 720000000000000"
    by (simp_all add: ParseDuration0_def defaultGCLifeTime_def)
  from a b c d p increaseGCLifeTime_example increaseGCLifeTime_example_long
    increaseGCLifeTime_example_invalid increaseGCLifeTime_example_cancelled
  show ?thesis
    by (simp add: QueryChecksum_def db0_def failAt_def failFrom_def Let_def)
qed

text \<open>
  Claim C10 as stated has the original value written back in every case.  First, a
  context that is cancelled during the checksum query: the variable is \<open>10m0s\<close> and is
  raised, the query fails, and the statement of the deferred cleanup fails too, so the
  variable is still \<open>100h0m0s\<close> as \<open>DoChecksum\<close> returns.  Second, a failure of the
  statement that raises the variable: \<open>DoChecksum\<close> returns that error before the
  deferred function is registered, and no statement writes \<open>10m0s\<close> back.
\<close>

theorem DoChecksum_no_cleanup_counterexample:
  "fst (increaseGCLifeTime ParseDuration0 (db0 ''10m0s'' (failFrom 2))) = Inr ''10m0s''
   \<and> fst (DoChecksum ParseDuration0 ''t'' (db0 ''10m0s'' (failFrom 2)))
       = Inl (External ''context canceled'')
   \<and> sqlLog (snd (DoChecksum ParseDuration0 ''t'' (db0 ''10m0s'' (failFrom 2))))
       = [ObtainGCLifeTimeCall, UpdateGCLifeTimeCall ''100h0m0s'', AdminChecksumCall ''t'',
          UpdateGCLifeTimeCall ''10m0s'']
   \<and> tikv_gc_life_time (snd (DoChecksum ParseDuration0 ''t'' (db0 ''10m0s'' (failFrom 2))))
       = ''100h0m0s''
   \<and> tikv_gc_life_time (snd (DoChecksum ParseDuration0 ''t'' (db0 ''10m0s'' (failFrom 2))))
       \<noteq> tikv_gc_life_time (db0 ''10m0s'' (failFrom 2))
   \<and> fst (DoChecksum ParseDuration0 ''t'' (db0 ''10m0s'' (failAt 1)))
       = Inl (External ''statement failed'')
   \<and> sqlLog (snd (DoChecksum ParseDuration0 ''t'' (db0 ''10m0s'' (failAt 1))))
       = [ObtainGCLifeTimeCall, UpdateGCLifeTimeCall ''100h0m0s'']
   \<and> UpdateGCLifeTimeCall ''10m0s''
       \<notin> set (sqlLog (snd (DoChecksum ParseDuration0 ''t'' (db0 ''10m0s'' (failAt 1)))))"
  by (simp add: DoChecksum_def increaseGCLifeTime_def ObtainGCLifeTime_def UpdateGCLifeTime_def
      QueryChecksum_def ParseDuration0_def db0_def failAt_def failFrom_def defaultGCLifeTime_def
      defaultGCLifeTime_String_def Let_def)

text \<open>
  When \<open>DoChecksum\<close> returns a remote checksum, \<open>compareChecksum\<close> returns an error
  exactly when it differs from the fold of the chunk checksums in one of the three
  components, and the error then carries the message built from the two.
\<close>

lemma compareChecksum_error_iff:
  assumes "DoChecksum PD tn db = (Inr remote, db')"
  shows "(fst (compareChecksum PD tn cp db) \<noteq> None
          \<longleftrightarrow> (Checksum remote \<noteq> Sum (localChecksumOf cp)
               \<or> TotalKVs remote \<noteq> SumKVS (localChecksumOf cp)
               \<or> TotalBytes remote \<noteq> SumSize (localChecksumOf cp)))
       \<and> (fst (compareChecksum PD tn cp db) \<noteq> None \<longrightarrow>
            fst (compareChecksum PD tn cp db)
              = Some (Errorf (mismatchMessage remote (localChecksumOf cp))))"
  using assms by (simp add: compareChecksum_def Let_def)

lemma fmt_d_digit: "fmt_d n \<noteq> [] \<and> hd (fmt_d n) \<noteq> CHR '' ''"
proof (induction n rule: fmt_d.induct)
  case (1 n)
  show ?case
  proof (cases "n < 10")
    case True
    then have "n \<in> {0,1,2,3,4,5,6,7,8,9}" by auto
    then show ?thesis by (subst fmt_d.simps, subst (2) fmt_d.simps) auto
  next
    case False
    with 1 have "fmt_d (n div 10) \<noteq> [] \<and> hd (fmt_d (n div 10)) \<noteq> CHR '' ''" by simp
    with False show ?thesis by (subst fmt_d.simps, subst (2) fmt_d.simps) simp
  qed
qed

text \<open>The message never has the space after \<open>total_bytes:\<close>.\<close>

lemma mismatchMessage_not_spaced: "mismatchMessage remote l \<noteq> spacedMessage remote l"
proof -
  obtain c cs where "fmt_u64 (TotalBytes remote) = c # cs" "c \<noteq> CHR '' ''"
    using fmt_d_digit[of "unat (TotalBytes remote)"]
    by (cases "fmt_u64 (TotalBytes remote)") (auto simp: fmt_u64_def)
  then show ?thesis
    by (simp add: mismatchMessage_def spacedMessage_def)
qed

lemma localChecksumOf_example: "localChecksumOf cpWritten = MakeKVChecksum 10 1 5"
  by (simp add: localChecksumOf_def cpWritten_def chunkHalf_def Add_def MakeKVChecksum_def)

lemma DoChecksum_example:
  "DoChecksum ParseDuration0 ''t'' (db0 ''200h0m0s'' (\<lambda>n. None))
   = (Inr row0, \<lparr>tikv_gc_life_time = ''200h0m0s'',
        sqlLog = [ObtainGCLifeTimeCall, AdminChecksumCall ''t'', UpdateGCLifeTimeCall ''200h0m0s''],
        sqlFail = (\<lambda>n. None), checksumRow = row0\<rparr>)"
  by (simp add: DoChecksum_def increaseGCLifeTime_def ObtainGCLifeTime_def UpdateGCLifeTime_def
      QueryChecksum_def ParseDuration0_def db0_def defaultGCLifeTime_def Let_def)

lemma fmt_u64_examples:
  "fmt_u64 5 = ''5''" "fmt_u64 2 = ''2''" "fmt_u64 1 = ''1''" "fmt_u64 20 = ''20''"
  "fmt_u64 10 = ''10''"
  by (simp_all add: fmt_u64_def fmt_d.simps)

text \<open>
  Claim C4, at a table whose chunks sum to \<open>(checksum 5, 1 KV, 10 bytes)\<close> while
  \<open>ADMIN CHECKSUM\<close> answers \<open>(checksum 5, 2 KVs, 20 bytes)\<close>: \<open>compareChecksum\<close> returns the
  mismatch error with the remote value first in each pair, and its message reads
  \<open>(total_bytes:20 vs 10)\<close>, without the space that the claimed form
  \<open>(total_bytes: P vs Q)\<close> has after the colon.
\<close>

theorem compareChecksum_total_bytes_message:
  "fst (compareChecksum ParseDuration0 ''t'' cpWritten (db0 ''200h0m0s'' (\<lambda>n. None)))
     = Some (Errorf ''checksum mismatched remote vs local => (checksum: 5 vs 5) (total_kvs: 2 vs 1) (total_bytes:20 vs 10)'')
   \<and> fst (compareChecksum ParseDuration0 ''t'' cpWritten (db0 ''200h0m0s'' (\<lambda>n. None)))
     \<noteq> Some (Errorf ''checksum mismatched remote vs local => (checksum: 5 vs 5) (total_kvs: 2 vs 1) (total_bytes: 20 vs 10)'')"
  by (simp add: compareChecksum_def DoChecksum_example localChecksumOf_example row0_def
      mismatchMessage_def MakeKVChecksum_def Sum_def SumKVS_def SumSize_def fmt_u64_examples)

theorem compareChecksum_total_bytes_message_witness:
  "localChecksumOf cpWritten = MakeKVChecksum 10 1 5
   \<and> fst (DoChecksum ParseDuration0 ''t'' (db0 ''200h0m0s'' (\<lambda>n. None))) = Inr row0
   \<and> TotalKVs row0 \<noteq> SumKVS (localChecksumOf cpWritten)
   \<and> fst (compareChecksum ParseDuration0 ''t'' cpWritten (db0 ''200h0m0s'' (\<lambda>n. None)))
       = Some (Errorf (mismatchMessage row0 (localChecksumOf cpWritten)))"
proof -
  have m: "mismatchMessage row0 (MakeKVChecksum 10 1 5)
      = ''checksum mismatched remote vs local => (checksum: 5 vs 5) (total_kvs: 2 vs 1) (total_bytes:20 vs 10)''"
    by (simp add: row0_def mismatchMessage_def MakeKVChecksum_def Sum_def SumKVS_def SumSize_def
        fmt_u64_examples)
  have k: "TotalKVs row0 \<noteq> SumKVS (MakeKVChecksum 10 1 5)"
    by (simp add: row0_def MakeKVChecksum_def SumKVS_def)
  from compareChecksum_total_bytes_message m k localChecksumOf_example DoChecksum_example
  show ?thesis by simp
qed

section \<open>Properties of the hand-off\<close>

lemma handoffInv_step: "handoffInv s \<Longrightarrow> step crc64 a s = Some s' \<Longrightarrow> handoffInv s'"
  by (cases a) (auto simp: handoffInv_def queueWithin_def not_less mult.commute split: if_splits)

lemma handoffInv_run: "handoffInv s \<Longrightarrow> run crc64 acts s = Some s' \<Longrightarrow> handoffInv s'"
proof (induction acts arbitrary: s)
  case Nil
  then show ?case by simp
next
  case (Cons a acts)
  then show ?case by (auto split: option.splits dest: handoffInv_step)
qed

lemma handoffInv_pipeline0: "handoffInv pipeline0"
  by (simp add: handoffInv_def queueWithin_def pipeline0_def block0_def)

lemma run_slowDelivery:
  "run crc0 slowDelivery pipeline0 =
   Some \<lparr>blk = \<lparr>encodeCompleted = False, totalKVs = replicate 128 kv0,
                 localChecksum = Update crc0 (MakeKVChecksum 0 0 0) (replicate 128 kv0),
                 chunkOffset = 10, chunkRowID = 128\<rparr>,
          enc_kvs = [kv0], enc_pos = 20, enc_rowID = 129, encoded = True, deliverB = block0\<rparr>"
  by (simp add: slowDelivery_def pipeline0_def block0_def maxKVQueueSize_def)

lemma run_slowDelivery_Enqueue:
  "run crc0 (slowDelivery @ [Enqueue]) pipeline0 =
   Some \<lparr>blk = \<lparr>encodeCompleted = False, totalKVs = replicate 128 kv0 @ [kv0],
                 localChecksum = Update crc0 (Update crc0 (MakeKVChecksum 0 0 0)
                                   (replicate 128 kv0)) [kv0],
                 chunkOffset = 20, chunkRowID = 129\<rparr>,
          enc_kvs = [kv0], enc_pos = 20, enc_rowID = 129, encoded = False, deliverB = block0\<rparr>"
  by (simp add: slowDelivery_def pipeline0_def block0_def maxKVQueueSize_def)

lemma run_blockedDelivery:
  "run crc0 blockedDelivery pipeline0 =
   Some \<lparr>blk = \<lparr>encodeCompleted = False, totalKVs = replicate 129 kv0,
                 localChecksum = Update crc0 (MakeKVChecksum 0 0 0) (replicate 129 kv0),
                 chunkOffset = 10, chunkRowID = 129\<rparr>,
          enc_kvs = [kv0], enc_pos = 20, enc_rowID = 130, encoded = True, deliverB = block0\<rparr>"
  by (simp add: blockedDelivery_def pipeline0_def block0_def maxKVQueueSize_def)

text \<open>
  Claim C5, as amended.  In every state that the hand-off reaches: unless the encoder
  holds a batch that it has not yet appended, the pending queue holds at most
  \<open>maxKVQueueSize + 1\<close> (129) times the length of the last encoded batch; the encoder
  cannot append while the pending KV count exceeds the length of its just-encoded batch
  times \<open>maxKVQueueSize\<close> (it waits on the condition variable); and when it appends, the
  queue held at most \<open>maxKVQueueSize\<close> times that length before the append, the batch is
  added at the end, and the queue holds at most \<open>maxKVQueueSize + 1\<close> times that length
  after it.
\<close>

theorem handoff_queue_bound:
  assumes "run crc64 acts pipeline0 = Some s"
  shows "(\<not> encoded s \<longrightarrow> queueWithin (maxKVQueueSize + 1) s)
       \<and> (length (totalKVs (blk s)) > length (enc_kvs s) * maxKVQueueSize \<longrightarrow>
            step crc64 Enqueue s = None)
       \<and> (\<forall>s'. step crc64 Enqueue s = Some s' \<longrightarrow>
            queueWithin maxKVQueueSize s
            \<and> totalKVs (blk s') = totalKVs (blk s) @ enc_kvs s
            \<and> queueWithin (maxKVQueueSize + 1) s')"
proof -
  from handoffInv_run[OF handoffInv_pipeline0 assms]
  have 1: "\<not> encoded s \<longrightarrow> queueWithin (maxKVQueueSize + 1) s"
    by (simp add: handoffInv_def)
  have 2: "length (totalKVs (blk s)) > length (enc_kvs s) * maxKVQueueSize \<longrightarrow>
            step crc64 Enqueue s = None" by simp
  have 3: "\<forall>s'. step crc64 Enqueue s = Some s' \<longrightarrow>
            queueWithin maxKVQueueSize s
            \<and> totalKVs (blk s') = totalKVs (blk s) @ enc_kvs s
            \<and> queueWithin (maxKVQueueSize + 1) s'"
    by (auto simp: queueWithin_def not_less mult.commute split: if_splits)
  from 1 2 3 show ?thesis by blast
qed

theorem handoff_queue_bound_witness:
  "run crc0 slowDelivery pipeline0 \<noteq> None
   \<and> encoded (the (run crc0 slowDelivery pipeline0))
   \<and> step crc0 Enqueue (the (run crc0 slowDelivery pipeline0)) \<noteq> None
   \<and> queueWithin maxKVQueueSize (the (run crc0 slowDelivery pipeline0))
   \<and> length (totalKVs (blk (the (step crc0 Enqueue (the (run crc0 slowDelivery pipeline0)))))) = 129
   \<and> queueWithin (maxKVQueueSize + 1)
        (the (step crc0 Enqueue (the (run crc0 slowDelivery pipeline0))))
   \<and> run crc0 (slowDelivery @ [Enqueue]) pipeline0 \<noteq> None
   \<and> \<not> encoded (the (run crc0 (slowDelivery @ [Enqueue]) pipeline0))
   \<and> queueWithin (maxKVQueueSize + 1) (the (run crc0 (slowDelivery @ [Enqueue]) pipeline0))
   \<and> run crc0 blockedDelivery pipeline0 \<noteq> None
   \<and> length (totalKVs (blk (the (run crc0 blockedDelivery pipeline0))))
       > length (enc_kvs (the (run crc0 blockedDelivery pipeline0))) * maxKVQueueSize
   \<and> step crc0 Enqueue (the (run crc0 blockedDelivery pipeline0)) = None"
proof -
  let ?s = "the (run crc0 slowDelivery pipeline0)"
  let ?t = "the (step crc0 Enqueue ?s)"
  let ?u = "the (run crc0 (slowDelivery @ [Enqueue]) pipeline0)"
  let ?w = "the (run crc0 blockedDelivery pipeline0)"
  have r: "run crc0 slowDelivery pipeline0 = Some ?s"
    unfolding run_slowDelivery by simp
  have r0: "run crc0 slowDelivery pipeline0 \<noteq> None"
    unfolding run_slowDelivery by simp
  have e: "encoded ?s" "length (totalKVs (blk ?s)) = 128" "length (enc_kvs ?s) = 1"
    unfolding run_slowDelivery by simp_all
  have st: "step crc0 Enqueue ?s \<noteq> None"
    using e by (simp add: maxKVQueueSize_def)
  then have st': "step crc0 Enqueue ?s = Some ?t"
    by (metis option.collapse)
  from handoff_queue_bound[OF r] st'
  have b: "queueWithin maxKVQueueSize ?s" "totalKVs (blk ?t) = totalKVs (blk ?s) @ enc_kvs ?s"
    "queueWithin (maxKVQueueSize + 1) ?t"
    by blast+
  have "length (totalKVs (blk ?t)) = length (totalKVs (blk ?s)) + length (enc_kvs ?s)"
    by (simp only: b(2) length_append)
  then have len: "length (totalKVs (blk ?t)) = 129"
    by (simp only: e)
  have ru: "run crc0 (slowDelivery @ [Enqueue]) pipeline0 = Some ?u"
    unfolding run_slowDelivery_Enqueue by simp
  have ru0: "run crc0 (slowDelivery @ [Enqueue]) pipeline0 \<noteq> None"
    unfolding run_slowDelivery_Enqueue by simp
  have eu: "\<not> encoded ?u"
    unfolding run_slowDelivery_Enqueue by simp
  from handoff_queue_bound[OF ru] eu have bu: "queueWithin (maxKVQueueSize + 1) ?u"
    by blast
  have rw: "run crc0 blockedDelivery pipeline0 = Some ?w"
    unfolding run_blockedDelivery by simp
  have rw0: "run crc0 blockedDelivery pipeline0 \<noteq> None"
    unfolding run_blockedDelivery by simp
  have gw: "length (totalKVs (blk ?w)) > length (enc_kvs ?w) * maxKVQueueSize"
    unfolding run_blockedDelivery by (simp add: maxKVQueueSize_def)
  from handoff_queue_bound[OF rw] gw have bw: "step crc0 Enqueue ?w = None"
    by blast
  from r0 e(1) st b(1) len b(3) ru0 eu bu rw0 gw bw show ?thesis by blast
qed

text \<open>
  Claim C5 as stated bounds the queue by \<open>maxKVQueueSize\<close> times the length of the last
  encoded batch in every state.  After a batch of 128 pairs and a batch of one pair,
  with no delivery in between, the queue holds 129 pairs and the last batch one.
\<close>

theorem handoff_queue_bound_counterexample:
  "run crc0 (slowDelivery @ [Enqueue]) pipeline0 \<noteq> None
   \<and> length (totalKVs (blk (the (run crc0 (slowDelivery @ [Enqueue]) pipeline0)))) = 129
   \<and> length (enc_kvs (the (run crc0 (slowDelivery @ [Enqueue]) pipeline0))) = 1
   \<and> \<not> queueWithin maxKVQueueSize (the (run crc0 (slowDelivery @ [Enqueue]) pipeline0))"
  unfolding run_slowDelivery_Enqueue by (simp add: queueWithin_def maxKVQueueSize_def)

end
